theory Spec2Isabelle
  imports Main "HOL-Library.AList"
begin

section \<open>Python values, dictionaries and exceptions\<close>

text \<open>
  The webhook service of \<^verbatim>\<open>mainsecretkey.py\<close> keeps every received transaction as a
  Python dictionary in one process-wide list and answers with dictionaries. A dictionary
  is an association list in insertion order; assigning to a key replaces the value in
  place or adds the key at the end, as \<open>AList.update\<close> does.
\<close>

datatype pyval =
    PNone
  | PInt int
  | PStr string
  | PList "pyval list"
  | PDict "(string \<times> pyval) list"

type_synonym pydict = "(string \<times> pyval) list"

text \<open>\<^verbatim>\<open>d[k] = v\<close>\<close>

definition dict_set :: "pydict \<Rightarrow> string \<Rightarrow> pyval \<Rightarrow> pydict" where
  "dict_set d k v = AList.update k v d"

text \<open>\<^verbatim>\<open>d.get(k)\<close>: the value, or Python's \<^verbatim>\<open>None\<close> for a missing key.\<close>

definition dict_get :: "pydict \<Rightarrow> string \<Rightarrow> pyval" where
  "dict_get d k = (case map_of d k of None \<Rightarrow> PNone | Some v \<Rightarrow> v)"

text \<open>
  \<^verbatim>\<open>d[k]\<close>: a missing key raises \<^verbatim>\<open>KeyError\<close>; the error carries \<^verbatim>\<open>str(e)\<close>, the key
  in quotes.
\<close>

definition dict_getitem :: "pydict \<Rightarrow> string \<Rightarrow> string + pyval" where
  "dict_getitem d k =
     (case map_of d k of None \<Rightarrow> Inl ([CHR 0x27] @ k @ [CHR 0x27]) | Some v \<Rightarrow> Inr v)"

text \<open>Truth value of a Python object, as \<^verbatim>\<open>if x\<close> and \<^verbatim>\<open>not x\<close> test it.\<close>

fun truthy :: "pyval \<Rightarrow> bool" where
  "truthy PNone = False"
| "truthy (PInt i) = (i \<noteq> 0)"
| "truthy (PStr s) = (s \<noteq> [])"
| "truthy (PList xs) = (xs \<noteq> [])"
| "truthy (PDict d) = (d \<noteq> [])"

definition opt_int :: "int option \<Rightarrow> pyval" where
  "opt_int x = (case x of None \<Rightarrow> PNone | Some i \<Rightarrow> PInt i)"

definition opt_str :: "string option \<Rightarrow> pyval" where
  "opt_str x = (case x of None \<Rightarrow> PNone | Some s \<Rightarrow> PStr s)"

text \<open>
  What a handler raises: an \<^verbatim>\<open>HTTPException\<close> with its status code and detail, or any
  other Python exception, kept as its \<^verbatim>\<open>str(e)\<close>.
\<close>

datatype exc = HTTPException nat string | PyError string

section \<open>Decimal numbers, dates and times\<close>

definition digit :: "nat \<Rightarrow> char" where
  "digit n = ''0123456789'' ! n"

text \<open>\<^verbatim>\<open>str(n)\<close> for a natural number.\<close>

fun dec :: "nat \<Rightarrow> string" where
  "dec n = (if n < 10 then [digit n] else dec (n div 10) @ [digit (n mod 10)])"

declare dec.simps [simp del]

text \<open>The \<^verbatim>\<open>%0wd\<close> conversion: at least \<open>w\<close> digits, filled with zeros on the left.\<close>

definition zpad :: "nat \<Rightarrow> nat \<Rightarrow> string" where
  "zpad w n = replicate (w - length (dec n)) (CHR ''0'') @ dec n"

text \<open>
  A naive \<^verbatim>\<open>datetime\<close>, as \<^verbatim>\<open>datetime.now()\<close> returns it: local wall-clock time with no
  time zone.
\<close>

record datetime =
  year :: nat
  month :: nat
  day :: nat
  hour :: nat
  minute :: nat
  second :: nat
  microsecond :: nat

text \<open>The ranges of the fields of a \<^verbatim>\<open>datetime\<close> object (the calendar apart).\<close>

definition valid_datetime :: "datetime \<Rightarrow> bool" where
  "valid_datetime t \<longleftrightarrow>
     1 \<le> year t \<and> year t \<le> 9999 \<and> 1 \<le> month t \<and> month t \<le> 12 \<and>
     1 \<le> day t \<and> day t \<le> 31 \<and> hour t < 24 \<and> minute t < 60 \<and>
     second t < 60 \<and> microsecond t < 1000000"

text \<open>
  \<^verbatim>\<open>t.isoformat()\<close> of a naive datetime: \<^verbatim>\<open>YYYY-MM-DDTHH:MM:SS.ffffff\<close>, without the
  fraction when the microsecond is 0.
\<close>

definition isoformat :: "datetime \<Rightarrow> string" where
  "isoformat t =
     zpad 4 (year t) @ ''-'' @ zpad 2 (month t) @ ''-'' @ zpad 2 (day t) @ ''T'' @
     zpad 2 (hour t) @ '':'' @ zpad 2 (minute t) @ '':'' @ zpad 2 (second t) @
     (if microsecond t = 0 then [] else ''.'' @ zpad 6 (microsecond t))"

text \<open>
  \<^verbatim>\<open>t.strftime(fmt)\<close> for the directives the service uses; any other character of the
  format is copied. \<^verbatim>\<open>%Y\<close> is written with four digits: the C library underneath
  agrees with that from the year 1000 on.
\<close>

definition directive :: "datetime \<Rightarrow> char \<Rightarrow> string" where
  "directive t c =
     (if c = CHR ''Y'' then zpad 4 (year t)
      else if c = CHR ''m'' then zpad 2 (month t)
      else if c = CHR ''d'' then zpad 2 (day t)
      else if c = CHR ''H'' then zpad 2 (hour t)
      else if c = CHR ''M'' then zpad 2 (minute t)
      else if c = CHR ''S'' then zpad 2 (second t)
      else [CHR ''%'', c])"

fun strftime :: "datetime \<Rightarrow> string \<Rightarrow> string" where
  "strftime t [] = []"
| "strftime t [c] = [c]"
| "strftime t (c # x # r) =
     (if c = CHR ''%'' then directive t x @ strftime t r else c # strftime t (x # r))"

declare strftime.simps [simp del]

section \<open>The service state and its environment\<close>

text \<open>
  \<^verbatim>\<open>received_transactions\<close> is the module-level list. The logger is the second piece of
  state: each call adds the level, the message template and the values put into it.
\<close>

datatype level = INFO | WARNING | ERROR

type_synonym log_record = "level \<times> string \<times> pyval list"

record world =
  received_transactions :: "pydict list"
  log_records :: "log_record list"

definition logger :: "level \<Rightarrow> string \<Rightarrow> pyval list \<Rightarrow> world \<Rightarrow> world" where
  "logger l msg args w = w\<lparr>log_records := log_records w @ [(l, msg, args)]\<rparr>"

text \<open>
  What a request meets outside the program while it runs: \<open>now n\<close> is the value of the
  \<open>n\<close>-th call of \<^verbatim>\<open>datetime.now()\<close> of the request (counted from 0); \<open>append_raises n\<close>
  tells whether the \<open>n\<close>-th \<^verbatim>\<open>received_transactions.append\<close> of the request raises (a
  \<^verbatim>\<open>MemoryError\<close>, say), and with which \<^verbatim>\<open>str(e)\<close>; \<open>hash_key\<close> stands for the string
  hashes that decide in which order a \<^verbatim>\<open>set\<close> is iterated. The other calls a handler
  makes (\<^verbatim>\<open>dict()\<close>, the clock, the formatting, the logger) are taken not to raise.
\<close>

record env =
  now :: "nat \<Rightarrow> datetime"
  append_raises :: "nat \<Rightarrow> string option"
  hash_key :: "pyval \<Rightarrow> nat"

text \<open>\<^verbatim>\<open>received_transactions.append(d)\<close>: all or nothing.\<close>

definition list_append :: "env \<Rightarrow> nat \<Rightarrow> pydict \<Rightarrow> world \<Rightarrow> (string + unit) \<times> world" where
  "list_append e n d w =
     (case append_raises e n of
        Some msg \<Rightarrow> (Inl msg, w)
      | None \<Rightarrow> (Inr (), w\<lparr>received_transactions := received_transactions w @ [d]\<rparr>))"

section \<open>Token check\<close>

text \<open>
  \<^verbatim>\<open>WEBHOOK_TOKEN\<close> is read once from the process environment (the empty string when the
  variable is unset); it is the first argument of every handler here.
\<close>

definition check_token :: "string \<Rightarrow> string option \<Rightarrow> world \<Rightarrow> (exc + unit) \<times> world" where
  "check_token WEBHOOK_TOKEN x_webhook_token w =
     (if WEBHOOK_TOKEN = [] then
        (Inl (HTTPException 500 ''Server misconfiguration: WEBHOOK_TOKEN missing''),
         logger ERROR ''[SECURITY] WEBHOOK_TOKEN not configured in environment'' [] w)
      else if (case x_webhook_token of None \<Rightarrow> True | Some t \<Rightarrow> t = [])
              \<or> x_webhook_token \<noteq> Some WEBHOOK_TOKEN then
        (Inl (HTTPException 401 ''Unauthorized''),
         logger WARNING ''[SECURITY] Unauthorized access attempt with token: %s''
           [opt_str x_webhook_token] w)
      else (Inr (), w))"

section \<open>Submitting transactions\<close>

text \<open>The request body of a submission, after validation: every field may be \<^verbatim>\<open>None\<close>.\<close>

record UserTransaction =
  authorizer_usrnbr :: "int option"
  creat_usrnbr :: "int option"
  creat_time :: "string option"
  data :: "string option"
  usrname :: "string option"

text \<open>\<^verbatim>\<open>transaction.dict()\<close>: the five fields in declaration order.\<close>

definition dict_of :: "UserTransaction \<Rightarrow> pydict" where
  "dict_of transaction =
     [(''authorizer_usrnbr'', opt_int (authorizer_usrnbr transaction)),
      (''creat_usrnbr'', opt_int (creat_usrnbr transaction)),
      (''creat_time'', opt_str (creat_time transaction)),
      (''data'', opt_str (data transaction)),
      (''usrname'', opt_str (usrname transaction))]"

text \<open>
  The body of the \<^verbatim>\<open>try\<close> of \<^verbatim>\<open>receive_user_transaction\<close>; \<open>Inl\<close> is an exception raised
  inside it, as its \<^verbatim>\<open>str(e)\<close>, together with the state at that moment.
\<close>

definition user_transaction_dict :: "env \<Rightarrow> UserTransaction \<Rightarrow> world \<Rightarrow> pydict" where
  "user_transaction_dict e transaction w =
     (let transaction_dict = dict_of transaction;
          transaction_dict = dict_set transaction_dict ''received_at'' (PStr (isoformat (now e 0)));
          transaction_dict = dict_set transaction_dict ''poc_id''
                               (PInt (int (length (received_transactions w)) + 1))
      in transaction_dict)"

definition receive_user_transaction_try ::
    "env \<Rightarrow> UserTransaction \<Rightarrow> world \<Rightarrow> (string + pyval) \<times> world" where
  "receive_user_transaction_try e transaction w =
     (let transaction_dict = user_transaction_dict e transaction w in
      case list_append e 0 transaction_dict w of
        (Inl msg, w1) \<Rightarrow> (Inl msg, w1)
      | (Inr _, w1) \<Rightarrow>
          (let w2 = logger INFO ''[POC V2] Transaction received - User: {}, Creator: {}''
                      [opt_str (usrname transaction), opt_int (creat_usrnbr transaction)] w1
           in case dict_getitem transaction_dict ''poc_id'' of
                Inl msg \<Rightarrow> (Inl msg, w2)
              | Inr poc_id \<Rightarrow>
                  (case dict_getitem transaction_dict ''received_at'' of
                     Inl msg \<Rightarrow> (Inl msg, w2)
                   | Inr received_at \<Rightarrow>
                       (Inr (PDict
                          [(''status'', PStr ''success''),
                           (''message'', PStr ''User transaction received successfully''),
                           (''poc_id'', poc_id),
                           (''user'', opt_str (usrname transaction)),
                           (''received_at'', received_at)]), w2))))"

definition receive_user_transaction ::
    "string \<Rightarrow> env \<Rightarrow> UserTransaction \<Rightarrow> string option \<Rightarrow> world \<Rightarrow> (exc + pyval) \<times> world" where
  "receive_user_transaction WEBHOOK_TOKEN e transaction x_webhook_token w =
     (case check_token WEBHOOK_TOKEN x_webhook_token w of
        (Inl ex, w0) \<Rightarrow> (Inl ex, w0)
      | (Inr _, w0) \<Rightarrow>
          (case receive_user_transaction_try e transaction w0 of
             (Inr response, w1) \<Rightarrow> (Inr response, w1)
           | (Inl msg, w1) \<Rightarrow>
               (Inl (HTTPException 500 (''Error processing transaction: '' @ msg)),
                logger ERROR ''[POC V2 ERROR] Failed to process transaction: {}'' [PStr msg] w1)))"

text \<open>
  One turn of the loop of \<^verbatim>\<open>receive_batch_transactions\<close> builds this dictionary;
  \<open>received_count\<close> is also the number of the turn, so the turn reads the clock for the
  \<open>received_count + 1\<close>-th time (the first reading made the \<open>batch_id\<close>).
\<close>

definition batch_transaction_dict ::
    "env \<Rightarrow> string \<Rightarrow> UserTransaction \<Rightarrow> nat \<Rightarrow> world \<Rightarrow> pydict" where
  "batch_transaction_dict e batch_id transaction received_count w =
     (let transaction_dict = dict_of transaction;
          transaction_dict = dict_set transaction_dict ''received_at''
                               (PStr (isoformat (now e (Suc received_count))));
          transaction_dict = dict_set transaction_dict ''batch_id'' (PStr batch_id);
          transaction_dict = dict_set transaction_dict ''poc_id''
                               (PInt (int (length (received_transactions w)) + 1))
      in transaction_dict)"

fun batch_loop ::
    "env \<Rightarrow> string \<Rightarrow> UserTransaction list \<Rightarrow> nat \<Rightarrow> world \<Rightarrow> (string + nat) \<times> world" where
  "batch_loop e batch_id [] received_count w = (Inr received_count, w)"
| "batch_loop e batch_id (transaction # transactions) received_count w =
     (case list_append e received_count
             (batch_transaction_dict e batch_id transaction received_count w) w of
        (Inl msg, w1) \<Rightarrow> (Inl msg, w1)
      | (Inr _, w1) \<Rightarrow>
          batch_loop e batch_id transactions (Suc received_count)
            (logger INFO ''[POC V2 BATCH] Transaction received - User: {}''
               [opt_str (usrname transaction)] w1))"

definition receive_batch_transactions_try ::
    "env \<Rightarrow> UserTransaction list \<Rightarrow> world \<Rightarrow> (string + pyval) \<times> world" where
  "receive_batch_transactions_try e transactions w =
     (let batch_id = strftime (now e 0) ''%Y%m%d_%H%M%S'' in
      case batch_loop e batch_id transactions 0 w of
        (Inl msg, w1) \<Rightarrow> (Inl msg, w1)
      | (Inr received_count, w1) \<Rightarrow>
          (Inr (PDict
             [(''status'', PStr ''success''),
              (''message'', PStr (''Batch of '' @ dec received_count @
                                  '' transactions received successfully'')),
              (''batch_id'', PStr batch_id),
              (''total_received'', PInt (int (length (received_transactions w1))))]), w1))"

definition receive_batch_transactions ::
    "string \<Rightarrow> env \<Rightarrow> UserTransaction list \<Rightarrow> string option \<Rightarrow> world
       \<Rightarrow> (exc + pyval) \<times> world" where
  "receive_batch_transactions WEBHOOK_TOKEN e transactions x_webhook_token w =
     (case check_token WEBHOOK_TOKEN x_webhook_token w of
        (Inl ex, w0) \<Rightarrow> (Inl ex, w0)
      | (Inr _, w0) \<Rightarrow>
          (case receive_batch_transactions_try e transactions w0 of
             (Inr response, w1) \<Rightarrow> (Inr response, w1)
           | (Inl msg, w1) \<Rightarrow>
               (Inl (HTTPException 500 (''Error processing batch: '' @ msg)),
                logger ERROR ''[POC V2 ERROR] Failed to process batch: {}'' [PStr msg] w1)))"

section \<open>Reading the store\<close>

text \<open>\<^verbatim>\<open>xs[-n:]\<close>: the last \<open>n\<close> elements, all of them when there are fewer.\<close>

definition slice_last :: "nat \<Rightarrow> 'a list \<Rightarrow> 'a list" where
  "slice_last n xs = drop (length xs - n) xs"

definition get_received_transactions ::
    "string \<Rightarrow> env \<Rightarrow> string option \<Rightarrow> world \<Rightarrow> (exc + pyval) \<times> world" where
  "get_received_transactions WEBHOOK_TOKEN e x_webhook_token w =
     (case check_token WEBHOOK_TOKEN x_webhook_token w of
        (Inl ex, w0) \<Rightarrow> (Inl ex, w0)
      | (Inr _, w0) \<Rightarrow>
          (Inr (PDict
             [(''total_count'', PInt (int (length (received_transactions w0)))),
              (''last_10_transactions'',
                 PList (map PDict
                   (if received_transactions w0 \<noteq> []
                    then slice_last 10 (received_transactions w0) else []))),
              (''last_updated'', PStr (isoformat (now e 0))),
              (''poc_status'', PStr ''active'')]), w0))"

text \<open>
  \<^verbatim>\<open>list(set(users))\<close>: the distinct elements, in the order the hashes give. Sorting by
  an arbitrary key of the environment reaches every order of them.
\<close>

definition list_of_set :: "env \<Rightarrow> pyval list \<Rightarrow> pyval list" where
  "list_of_set e xs = sort_key (hash_key e) (remdups xs)"

definition poc_statistics ::
    "string \<Rightarrow> env \<Rightarrow> string option \<Rightarrow> world \<Rightarrow> (exc + pyval) \<times> world" where
  "poc_statistics WEBHOOK_TOKEN e x_webhook_token w =
     (case check_token WEBHOOK_TOKEN x_webhook_token w of
        (Inl ex, w0) \<Rightarrow> (Inl ex, w0)
      | (Inr _, w0) \<Rightarrow>
          (if received_transactions w0 = [] then
             (Inr (PDict
                [(''message'', PStr ''No transactions received yet''),
                 (''total_count'', PInt 0),
                 (''status'', PStr ''waiting_for_data'')]), w0)
           else
             (let users = map (\<lambda>t. dict_get t ''usrname'')
                            (filter (\<lambda>t. truthy (dict_get t ''usrname''))
                               (received_transactions w0));
                  unique_users = list_of_set e users
              in case dict_getitem (hd (received_transactions w0)) ''received_at'' of
                   Inl msg \<Rightarrow> (Inl (PyError msg), w0)
                 | Inr first_transaction \<Rightarrow>
                     (case dict_getitem (last (received_transactions w0)) ''received_at'' of
                        Inl msg \<Rightarrow> (Inl (PyError msg), w0)
                      | Inr last_transaction \<Rightarrow>
                          (Inr (PDict
                             [(''total_transactions'',
                                 PInt (int (length (received_transactions w0)))),
                              (''unique_users'', PInt (int (length unique_users))),
                              (''user_list'', PList unique_users),
                              (''first_transaction'', first_transaction),
                              (''last_transaction'', last_transaction),
                              (''poc_status'', PStr ''collecting_data'')]), w0)))))"

text \<open>The two routes that ask for no token.\<close>

definition root :: "env \<Rightarrow> world \<Rightarrow> (exc + pyval) \<times> world" where
  "root e w =
     (Inr (PDict
        [(''message'', PStr ''Rakbank POC Kafka User Transaction Webhook Service (Secure V2)''),
         (''status'', PStr ''running''),
         (''timestamp'', PStr (isoformat (now e 0))),
         (''total_received'', PInt (int (length (received_transactions w)))),
         (''service_info'', PDict
            [(''source'', PStr ''Confluent Cloud Flink''),
             (''topic'', PStr ''user_trans_hst_avro''),
             (''purpose'', PStr ''POC webhook endpoint with SharedKey'')])]), w)"

definition health_check :: "env \<Rightarrow> world \<Rightarrow> (exc + pyval) \<times> world" where
  "health_check e w =
     (Inr (PDict
        [(''status'', PStr ''healthy''),
         (''timestamp'', PStr (isoformat (now e 0))),
         (''service'', PStr ''Rakbank POC Kafka Webhook V2''),
         (''total_transactions'', PInt (int (length (received_transactions w))))]), w)"

section \<open>A process lifetime\<close>

text \<open>
  The routes of the application. The handlers are coroutines that never await, so the
  event loop runs each request to its end before the next one; a process lifetime is a
  list of requests, each with what it meets in its environment, served in turn from the
  empty list and the empty log.
\<close>

datatype request =
    GetRoot
  | PostUserTransaction UserTransaction "string option"
  | PostBatch "UserTransaction list" "string option"
  | GetUserTransactions "string option"
  | GetHealth
  | GetStats "string option"

fun handle :: "string \<Rightarrow> env \<Rightarrow> request \<Rightarrow> world \<Rightarrow> (exc + pyval) \<times> world" where
  "handle tok e GetRoot w = root e w"
| "handle tok e (PostUserTransaction t x) w = receive_user_transaction tok e t x w"
| "handle tok e (PostBatch ts x) w = receive_batch_transactions tok e ts x w"
| "handle tok e (GetUserTransactions x) w = get_received_transactions tok e x w"
| "handle tok e GetHealth w = health_check e w"
| "handle tok e (GetStats x) w = poc_statistics tok e x w"

definition startup :: world where
  "startup = \<lparr>received_transactions = [], log_records = []\<rparr>"

fun serve :: "string \<Rightarrow> (env \<times> request) list \<Rightarrow> world \<Rightarrow> world" where
  "serve tok [] w = w"
| "serve tok ((e, r) # rs) w = serve tok rs (snd (handle tok e r w))"

section \<open>Notions used in the statements\<close>

text \<open>The value under a key of the JSON body of a successful response.\<close>

definition field :: "(exc + pyval) \<Rightarrow> string \<Rightarrow> pyval option" where
  "field r k = (case r of Inr (PDict d) \<Rightarrow> map_of d k | _ \<Rightarrow> None)"

text \<open>
  Python compares strings character by character; ISO timestamps are compared that way.
  Datetimes compare field by field, from the year down to the microsecond.
\<close>

fun str_le :: "string \<Rightarrow> string \<Rightarrow> bool" where
  "str_le [] ys = True"
| "str_le (x # xs) [] = False"
| "str_le (x # xs) (y # ys) = ((of_char x :: nat) < of_char y \<or> (x = y \<and> str_le xs ys))"

definition dt_le :: "datetime \<Rightarrow> datetime \<Rightarrow> bool" where
  "dt_le a b \<longleftrightarrow>
     year a < year b \<or> (year a = year b \<and>
    (month a < month b \<or> (month a = month b \<and>
    (day a < day b \<or> (day a = day b \<and>
    (hour a < hour b \<or> (hour a = hour b \<and>
    (minute a < minute b \<or> (minute a = minute b \<and>
    (second a < second b \<or> (second a = second b \<and>
     microsecond a \<le> microsecond b)))))))))))"

text \<open>The shape \<^verbatim>\<open>YYYYMMDD_HHMMSS\<close>: eight digits, an underscore, six digits.\<close>

definition is_digit :: "char \<Rightarrow> bool" where
  "is_digit c \<longleftrightarrow> c \<in> set ''0123456789''"

definition yyyymmdd_hhmmss :: "string \<Rightarrow> bool" where
  "yyyymmdd_hhmmss s \<longleftrightarrow>
     length s = 15 \<and> list_all is_digit (take 8 s) \<and> s ! 8 = CHR ''_'' \<and>
     list_all is_digit (drop 9 s)"

text \<open>The last \<open>w\<close> decimal digits of a number, a device of the proofs about \<open>zpad\<close>.\<close>

fun fixed :: "nat \<Rightarrow> nat \<Rightarrow> string" where
  "fixed 0 n = []"
| "fixed (Suc w) n = fixed w (n div 10) @ [digit (n mod 10)]"

text \<open>
  What holds of the list at every moment of a process lifetime: the record at position
  \<open>i\<close> carries the identifier \<open>i + 1\<close>, a timestamp, and a user name that is a string or
  \<^verbatim>\<open>None\<close>.
\<close>

definition wf_record :: "pydict \<Rightarrow> bool" where
  "wf_record d \<longleftrightarrow>
     (\<exists>s. map_of d ''received_at'' = Some (PStr s)) \<and> (\<exists>u. dict_get d ''usrname'' = opt_str u)"

definition store_inv :: "pydict list \<Rightarrow> bool" where
  "store_inv xs \<longleftrightarrow>
     (\<forall>i<length xs. map_of (xs ! i) ''poc_id'' = Some (PInt (int i + 1)) \<and> wf_record (xs ! i))"

section \<open>Sample requests\<close>

text \<open>
  Concrete environments and a request body on which the theorems below are run. The
  sample clock advances by a microsecond at each reading; the second clock is the local
  wall clock of a night on which daylight saving time ends, set back an hour between two
  readings; the third environment lets the first append pass and fails the second.
\<close>

definition sample_time :: datetime where
  "sample_time =
     \<lparr>year = 2024, month = 10, day = 27, hour = 1, minute = 59, second = 59, microsecond = 0\<rparr>"

definition sample_env :: env where
  "sample_env =
     \<lparr>now = (\<lambda>n. sample_time\<lparr>microsecond := n\<rparr>),
      append_raises = (\<lambda>n. None),
      hash_key = (\<lambda>v. 0)\<rparr>"

definition set_back_env :: env where
  "set_back_env =
     \<lparr>now = (\<lambda>n. if n \<le> 1 then sample_time else sample_time\<lparr>minute := 0, second := 0\<rparr>),
      append_raises = (\<lambda>n. None),
      hash_key = (\<lambda>v. 0)\<rparr>"

definition failing_env :: env where
  "failing_env =
     \<lparr>now = (\<lambda>n. sample_time\<lparr>microsecond := n\<rparr>),
      append_raises = (\<lambda>n. if n = 1 then Some ''out of memory'' else None),
      hash_key = (\<lambda>v. 0)\<rparr>"

definition alice :: UserTransaction where
  "alice =
     \<lparr>authorizer_usrnbr = None, creat_usrnbr = Some 7, creat_time = None, data = None,
      usrname = Some ''alice''\<rparr>"

definition bob :: UserTransaction where
  "bob =
     \<lparr>authorizer_usrnbr = Some 0, creat_usrnbr = None, creat_time = Some ''2024-10-26'',
      data = Some [], usrname = Some ''bob''\<rparr>"

definition nobody :: UserTransaction where
  "nobody =
     \<lparr>authorizer_usrnbr = None, creat_usrnbr = None, creat_time = None, data = None,
      usrname = None\<rparr>"

section \<open>The token check and the dictionaries built by the handlers\<close>

lemma store_logger [simp]: "received_transactions (logger l m a w) = received_transactions w"
  by (simp add: logger_def)

lemma check_token_ok:
  "tok \<noteq> [] \<Longrightarrow> check_token tok (Some tok) w = (Inr (), w)"
  by (simp add: check_token_def)

lemma user_transaction_dict_eq:
  "user_transaction_dict e t w =
     dict_of t @ [(''received_at'', PStr (isoformat (now e 0))),
                  (''poc_id'', PInt (int (length (received_transactions w)) + 1))]"
  by (simp add: user_transaction_dict_def dict_set_def dict_of_def)

lemma batch_transaction_dict_eq:
  "batch_transaction_dict e b t n w =
     dict_of t @ [(''received_at'', PStr (isoformat (now e (Suc n)))),
                  (''batch_id'', PStr b),
                  (''poc_id'', PInt (int (length (received_transactions w)) + 1))]"
  by (simp add: batch_transaction_dict_def dict_set_def dict_of_def)

lemma map_upt_shift: "map f [0..<Suc k] = f 0 # map (\<lambda>i. f (Suc i)) [0..<k]"
  by (simp add: map_upt_Suc del: upt_Suc)

lemma batch_loop_run:
  "\<exists>k\<le>length ts.
     received_transactions (snd (batch_loop e b ts n w)) =
       received_transactions w @
       map (\<lambda>i. dict_of (ts ! i) @
               [(''received_at'', PStr (isoformat (now e (Suc (n + i))))),
                (''batch_id'', PStr b),
                (''poc_id'', PInt (int (length (received_transactions w) + i) + 1))])
         [0..<k] \<and>
     (\<forall>i<k. append_raises e (n + i) = None) \<and>
     (if k = length ts then fst (batch_loop e b ts n w) = Inr (n + length ts)
      else \<exists>msg. append_raises e (n + k) = Some msg \<and> fst (batch_loop e b ts n w) = Inl msg)"
proof (induction ts arbitrary: n w)
  case Nil
  show ?case by simp
next
  case (Cons t ts)
  show ?case
  proof (cases "append_raises e n")
    case (Some msg)
    then have "batch_loop e b (t # ts) n w = (Inl msg, w)"
      by (simp add: list_append_def)
    with Some show ?thesis
      by (intro exI [of _ 0]) simp
  next
    case None
    let ?d = "batch_transaction_dict e b t n w"
    let ?w1 = "logger INFO ''[POC V2 BATCH] Transaction received - User: {}''
                 [opt_str (usrname t)] (w\<lparr>received_transactions := received_transactions w @ [?d]\<rparr>)"
    have step: "batch_loop e b (t # ts) n w = batch_loop e b ts (Suc n) ?w1"
      using None by (simp add: list_append_def)
    have st: "received_transactions ?w1 = received_transactions w @ [?d]"
      by simp
    from Cons.IH [of "Suc n" ?w1] obtain k where k: "k \<le> length ts"
      and store: "received_transactions (snd (batch_loop e b ts (Suc n) ?w1)) =
        received_transactions ?w1 @
        map (\<lambda>i. dict_of (ts ! i) @
               [(''received_at'', PStr (isoformat (now e (Suc (Suc n + i))))),
                (''batch_id'', PStr b),
                (''poc_id'', PInt (int (length (received_transactions ?w1) + i) + 1))])
          [0..<k]"
      and ok: "\<forall>i<k. append_raises e (Suc n + i) = None"
      and res: "if k = length ts then fst (batch_loop e b ts (Suc n) ?w1) = Inr (Suc n + length ts)
         else \<exists>msg. append_raises e (Suc n + k) = Some msg \<and>
                fst (batch_loop e b ts (Suc n) ?w1) = Inl msg"
      by blast
    have "received_transactions (snd (batch_loop e b (t # ts) n w)) =
       received_transactions w @
       map (\<lambda>i. dict_of ((t # ts) ! i) @
               [(''received_at'', PStr (isoformat (now e (Suc (n + i))))),
                (''batch_id'', PStr b),
                (''poc_id'', PInt (int (length (received_transactions w) + i) + 1))])
         [0..<Suc k]"
      unfolding step store st map_upt_shift
      by (simp add: batch_transaction_dict_eq)
    moreover have "\<forall>i<Suc k. append_raises e (n + i) = None"
      using ok None by (auto simp: less_Suc_eq_0_disj)
    moreover have "if Suc k = length (t # ts)
      then fst (batch_loop e b (t # ts) n w) = Inr (n + length (t # ts))
      else \<exists>msg. append_raises e (n + Suc k) = Some msg \<and>
             fst (batch_loop e b (t # ts) n w) = Inl msg"
      using res unfolding step by (cases "k = length ts") auto
    ultimately show ?thesis
      using k by (intro exI [of _ "Suc k"]) simp
  qed
qed

section \<open>Formatting\<close>

lemma digit_0: "digit 0 = CHR ''0''"
  by (simp add: digit_def)

lemma of_char_digit: "d < 10 \<Longrightarrow> (of_char (digit d) :: nat) = 48 + d"
proof -
  assume "d < 10"
  then have "d \<in> {0,1,2,3,4,5,6,7,8,9}" by auto
  then show ?thesis by (auto simp: digit_def)
qed

lemma is_digit_digit: "d < 10 \<Longrightarrow> is_digit (digit d)"
proof -
  assume "d < 10"
  then have "d \<in> {0,1,2,3,4,5,6,7,8,9}" by auto
  then show ?thesis by (auto simp: is_digit_def digit_def)
qed

lemma length_fixed [simp]: "length (fixed w n) = w"
  by (induction w arbitrary: n) auto

lemma fixed_0: "fixed w 0 = replicate w (CHR ''0'')"
  by (induction w) (auto simp: digit_0 replicate_append_same)

lemma zpad_fixed: "n < 10 ^ Suc w \<Longrightarrow> zpad (Suc w) n = fixed (Suc w) n"
proof (induction w arbitrary: n)
  case 0
  then show ?case by (simp add: zpad_def dec.simps [of n])
next
  case (Suc w)
  show ?case
  proof (cases "n < 10")
    case True
    then show ?thesis
      by (simp add: zpad_def dec.simps [of n] fixed_0 digit_0 replicate_append_same)
  next
    case False
    have d: "dec n = dec (n div 10) @ [digit (n mod 10)]"
      using False by (subst dec.simps) simp
    have "n div 10 < 10 ^ Suc w" using Suc.prems by auto
    then have ih: "zpad (Suc w) (n div 10) = fixed (Suc w) (n div 10)"
      by (rule Suc.IH)
    have "zpad (Suc (Suc w)) n = zpad (Suc w) (n div 10) @ [digit (n mod 10)]"
      by (simp add: zpad_def d)
    then show ?thesis using ih by simp
  qed
qed

lemma all_digits_fixed: "list_all is_digit (fixed w n)"
  by (induction w arbitrary: n) (auto simp: is_digit_digit)


lemma str_le_refl [simp]: "str_le s s"
  by (induction s) auto

lemma str_le_same_prefix [simp]: "str_le (a @ x) (a @ y) = str_le x y"
  by (induction a) auto

lemma str_le_blocks:
  "length a = length b \<Longrightarrow> a \<noteq> b \<Longrightarrow> str_le a b \<Longrightarrow> str_le (a @ x) (b @ y)"
  by (induction a b rule: list_induct2) auto

lemma div_mod_less:
  "(n::nat) < m \<Longrightarrow> n div 10 < m div 10 \<or> (n div 10 = m div 10 \<and> n mod 10 < m mod 10)"
  by (metis div_le_mono less_or_eq_imp_le mod_div_decomp nat_add_left_cancel_less
      nat_less_le nat_neq_iff)

lemma fixed_less:
  "n < m \<Longrightarrow> m < 10 ^ w \<Longrightarrow> fixed w n \<noteq> fixed w m \<and> str_le (fixed w n) (fixed w m)"
proof (induction w arbitrary: n m)
  case 0
  then show ?case by simp
next
  case (Suc w)
  have m10: "m div 10 < 10 ^ w"
    using Suc.prems(2) by (simp add: less_mult_imp_div_less mult.commute)
  from div_mod_less [OF Suc.prems(1)] show ?case
  proof
    assume lt: "n div 10 < m div 10"
    from Suc.IH [OF lt m10]
    have ne: "fixed w (n div 10) \<noteq> fixed w (m div 10)"
      and le: "str_le (fixed w (n div 10)) (fixed w (m div 10))" by simp_all
    have "str_le (fixed w (n div 10) @ [digit (n mod 10)]) (fixed w (m div 10) @ [digit (m mod 10)])"
      using ne le by (intro str_le_blocks) simp_all
    with ne show ?thesis by simp
  next
    assume "n div 10 = m div 10 \<and> n mod 10 < m mod 10"
    then have eq: "n div 10 = m div 10" and lt: "n mod 10 < m mod 10" by simp_all
    have "(of_char (digit (n mod 10)) :: nat) < of_char (digit (m mod 10))"
      using lt by (simp add: of_char_digit)
    then have "digit (n mod 10) \<noteq> digit (m mod 10)"
      and "str_le [digit (n mod 10)] [digit (m mod 10)]" by auto
    then show ?thesis unfolding fixed.simps eq by simp
  qed
qed

lemma str_le_fixed:
  assumes "m < 10 ^ w" and "n < m \<or> (n = m \<and> str_le x y)"
  shows "str_le (fixed w n @ x) (fixed w m @ y)"
proof (cases "n < m")
  case True
  from fixed_less [OF True assms(1)] show ?thesis
    by (intro str_le_blocks) simp_all
next
  case False
  with assms(2) show ?thesis by simp
qed

lemma zpad_fixed_pos: "0 < w \<Longrightarrow> n < 10 ^ w \<Longrightarrow> zpad w n = fixed w n"
  using zpad_fixed [of n "w - 1"] by simp

lemma isoformat_fixed:
  assumes "valid_datetime t"
  shows "isoformat t =
     fixed 4 (year t) @ ''-'' @ fixed 2 (month t) @ ''-'' @ fixed 2 (day t) @ ''T'' @
     fixed 2 (hour t) @ '':'' @ fixed 2 (minute t) @ '':'' @ fixed 2 (second t) @
     (if microsecond t = 0 then [] else ''.'' @ fixed 6 (microsecond t))"
proof -
  have "zpad 4 (year t) = fixed 4 (year t)"
       "zpad 2 (month t) = fixed 2 (month t)"
       "zpad 2 (day t) = fixed 2 (day t)"
       "zpad 2 (hour t) = fixed 2 (hour t)"
       "zpad 2 (minute t) = fixed 2 (minute t)"
       "zpad 2 (second t) = fixed 2 (second t)"
       "zpad 6 (microsecond t) = fixed 6 (microsecond t)"
    using assms by (simp_all add: zpad_fixed_pos valid_datetime_def)
  then show ?thesis by (simp only: isoformat_def)
qed

lemma isoformat_mono:
  assumes a: "valid_datetime a" and b: "valid_datetime b" and le: "dt_le a b"
  shows "str_le (isoformat a) (isoformat b)"
proof -
  let ?fa = "if microsecond a = 0 then [] else ''.'' @ fixed 6 (microsecond a)"
  let ?fb = "if microsecond b = 0 then [] else ''.'' @ fixed 6 (microsecond b)"
  have bounds: "year b < 10 ^ 4" "month b < 10 ^ 2" "day b < 10 ^ 2" "hour b < 10 ^ 2"
      "minute b < 10 ^ 2" "second b < 10 ^ 2" "microsecond b < 10 ^ 6"
    using b by (simp_all add: valid_datetime_def)
  have l7: "str_le ?fa ?fb" if "microsecond a \<le> microsecond b"
  proof (cases "microsecond a = 0")
    case True
    then show ?thesis by simp
  next
    case False
    have "str_le (fixed 6 (microsecond a) @ []) (fixed 6 (microsecond b) @ [])"
      using that by (intro str_le_fixed [OF bounds(7)]) auto
    then show ?thesis using False that by simp
  qed
  have l6: "str_le (fixed 2 (second a) @ ?fa) (fixed 2 (second b) @ ?fb)"
    if "second a < second b \<or> (second a = second b \<and> microsecond a \<le> microsecond b)"
    using that l7 by (intro str_le_fixed [OF bounds(6)]) blast
  have l5: "str_le (fixed 2 (minute a) @ CHR '':'' # fixed 2 (second a) @ ?fa)
                   (fixed 2 (minute b) @ CHR '':'' # fixed 2 (second b) @ ?fb)"
    if "minute a < minute b \<or> (minute a = minute b \<and>
         (second a < second b \<or> (second a = second b \<and> microsecond a \<le> microsecond b)))"
    using that l6 by (intro str_le_fixed [OF bounds(5)]) auto
  have l4: "str_le (fixed 2 (hour a) @ CHR '':'' # fixed 2 (minute a) @ CHR '':'' #
                      fixed 2 (second a) @ ?fa)
                   (fixed 2 (hour b) @ CHR '':'' # fixed 2 (minute b) @ CHR '':'' #
                      fixed 2 (second b) @ ?fb)"
    if "hour a < hour b \<or> (hour a = hour b \<and>
         (minute a < minute b \<or> (minute a = minute b \<and>
         (second a < second b \<or> (second a = second b \<and> microsecond a \<le> microsecond b)))))"
    using that l5 by (intro str_le_fixed [OF bounds(4)]) auto
  have l3: "str_le (fixed 2 (day a) @ CHR ''T'' # fixed 2 (hour a) @ CHR '':'' #
                      fixed 2 (minute a) @ CHR '':'' # fixed 2 (second a) @ ?fa)
                   (fixed 2 (day b) @ CHR ''T'' # fixed 2 (hour b) @ CHR '':'' #
                      fixed 2 (minute b) @ CHR '':'' # fixed 2 (second b) @ ?fb)"
    if "day a < day b \<or> (day a = day b \<and>
         (hour a < hour b \<or> (hour a = hour b \<and>
         (minute a < minute b \<or> (minute a = minute b \<and>
         (second a < second b \<or> (second a = second b \<and>
            microsecond a \<le> microsecond b)))))))"
    using that l4 by (intro str_le_fixed [OF bounds(3)]) auto
  have l2: "str_le (fixed 2 (month a) @ CHR ''-'' # fixed 2 (day a) @ CHR ''T'' #
                      fixed 2 (hour a) @ CHR '':'' # fixed 2 (minute a) @ CHR '':'' #
                      fixed 2 (second a) @ ?fa)
                   (fixed 2 (month b) @ CHR ''-'' # fixed 2 (day b) @ CHR ''T'' #
                      fixed 2 (hour b) @ CHR '':'' # fixed 2 (minute b) @ CHR '':'' #
                      fixed 2 (second b) @ ?fb)"
    if "month a < month b \<or> (month a = month b \<and>
         (day a < day b \<or> (day a = day b \<and>
         (hour a < hour b \<or> (hour a = hour b \<and>
         (minute a < minute b \<or> (minute a = minute b \<and>
         (second a < second b \<or> (second a = second b \<and>
            microsecond a \<le> microsecond b)))))))))"
    using that l3 by (intro str_le_fixed [OF bounds(2)]) auto
  have l1: "str_le (fixed 4 (year a) @ CHR ''-'' # fixed 2 (month a) @ CHR ''-'' #
                      fixed 2 (day a) @ CHR ''T'' #
                      fixed 2 (hour a) @ CHR '':'' # fixed 2 (minute a) @ CHR '':'' #
                      fixed 2 (second a) @ ?fa)
                   (fixed 4 (year b) @ CHR ''-'' # fixed 2 (month b) @ CHR ''-'' #
                      fixed 2 (day b) @ CHR ''T'' #
                      fixed 2 (hour b) @ CHR '':'' # fixed 2 (minute b) @ CHR '':'' #
                      fixed 2 (second b) @ ?fb)"
    using le l2 unfolding dt_le_def by (intro str_le_fixed [OF bounds(1)]) auto
  show ?thesis
    unfolding isoformat_fixed [OF a] isoformat_fixed [OF b] using l1 by simp
qed

lemma strftime_batch_id:
  "strftime t ''%Y%m%d_%H%M%S'' =
     zpad 4 (year t) @ zpad 2 (month t) @ zpad 2 (day t) @ ''_'' @
     zpad 2 (hour t) @ zpad 2 (minute t) @ zpad 2 (second t)"
  by (simp add: strftime.simps directive_def)

lemma batch_id_format:
  assumes "valid_datetime t"
  shows "yyyymmdd_hhmmss (strftime t ''%Y%m%d_%H%M%S'')"
proof -
  have z: "zpad 4 (year t) = fixed 4 (year t)"
       "zpad 2 (month t) = fixed 2 (month t)"
       "zpad 2 (day t) = fixed 2 (day t)"
       "zpad 2 (hour t) = fixed 2 (hour t)"
       "zpad 2 (minute t) = fixed 2 (minute t)"
       "zpad 2 (second t) = fixed 2 (second t)"
    using assms by (simp_all add: zpad_fixed_pos valid_datetime_def)
  show ?thesis
    unfolding strftime_batch_id z yyyymmdd_hhmmss_def
    by (simp add: all_digits_fixed nth_append del: fixed.simps)
qed

section \<open>What the handlers do to the list\<close>

lemma receive_user_transaction_ok:
  assumes "tok \<noteq> []" and "append_raises e 0 = None"
  shows "receive_user_transaction tok e t (Some tok) w =
    (Inr (PDict
       [(''status'', PStr ''success''),
        (''message'', PStr ''User transaction received successfully''),
        (''poc_id'', PInt (int (length (received_transactions w)) + 1)),
        (''user'', opt_str (usrname t)),
        (''received_at'', PStr (isoformat (now e 0)))]),
     logger INFO ''[POC V2] Transaction received - User: {}, Creator: {}''
       [opt_str (usrname t), opt_int (creat_usrnbr t)]
       (w\<lparr>received_transactions := received_transactions w @
          [dict_of t @ [(''received_at'', PStr (isoformat (now e 0))),
                        (''poc_id'', PInt (int (length (received_transactions w)) + 1))]]\<rparr>))"
  using assms
  by (simp add: receive_user_transaction_def check_token_ok receive_user_transaction_try_def
      user_transaction_dict_eq list_append_def dict_getitem_def dict_of_def)

lemma receive_user_transaction_raises:
  assumes "tok \<noteq> []" and "append_raises e 0 = Some msg"
  shows "receive_user_transaction tok e t (Some tok) w =
    (Inl (HTTPException 500 (''Error processing transaction: '' @ msg)),
     logger ERROR ''[POC V2 ERROR] Failed to process transaction: {}'' [PStr msg] w)"
  using assms
  by (simp add: receive_user_transaction_def check_token_ok receive_user_transaction_try_def
      list_append_def)

lemma receive_batch_transactions_run:
  assumes "tok \<noteq> []"
  shows "\<exists>k\<le>length ts.
     received_transactions (snd (receive_batch_transactions tok e ts (Some tok) w)) =
       received_transactions w @
       map (\<lambda>i. dict_of (ts ! i) @
               [(''received_at'', PStr (isoformat (now e (Suc i)))),
                (''batch_id'', PStr (strftime (now e 0) ''%Y%m%d_%H%M%S'')),
                (''poc_id'', PInt (int (length (received_transactions w) + i) + 1))])
         [0..<k] \<and>
     (\<forall>i<k. append_raises e i = None) \<and>
     (if k = length ts then
        fst (receive_batch_transactions tok e ts (Some tok) w) =
          Inr (PDict
             [(''status'', PStr ''success''),
              (''message'', PStr (''Batch of '' @ dec (length ts) @
                                  '' transactions received successfully'')),
              (''batch_id'', PStr (strftime (now e 0) ''%Y%m%d_%H%M%S'')),
              (''total_received'', PInt (int (length (received_transactions w) + length ts)))])
      else \<exists>msg. append_raises e k = Some msg \<and>
             fst (receive_batch_transactions tok e ts (Some tok) w) =
               Inl (HTTPException 500 (''Error processing batch: '' @ msg)))"
proof -
  let ?b = "strftime (now e 0) ''%Y%m%d_%H%M%S''"
  obtain r w1 where bl: "batch_loop e ?b ts 0 w = (r, w1)"
    by (cases "batch_loop e ?b ts 0 w")
  have "\<exists>k\<le>length ts. received_transactions w1 =
       received_transactions w @
       map (\<lambda>i. dict_of (ts ! i) @
               [(''received_at'', PStr (isoformat (now e (Suc i)))),
                (''batch_id'', PStr ?b),
                (''poc_id'', PInt (int (length (received_transactions w) + i) + 1))])
         [0..<k] \<and>
     (\<forall>i<k. append_raises e i = None) \<and>
     (if k = length ts then r = Inr (length ts)
      else \<exists>msg. append_raises e k = Some msg \<and> r = Inl msg)"
    using batch_loop_run [of ts e ?b 0 w] unfolding bl fst_conv snd_conv add_0 .
  then obtain k where k: "k \<le> length ts"
    and store: "received_transactions w1 =
       received_transactions w @
       map (\<lambda>i. dict_of (ts ! i) @
               [(''received_at'', PStr (isoformat (now e (Suc i)))),
                (''batch_id'', PStr ?b),
                (''poc_id'', PInt (int (length (received_transactions w) + i) + 1))])
         [0..<k]"
    and ok: "\<forall>i<k. append_raises e i = None"
    and res: "if k = length ts then r = Inr (length ts)
              else \<exists>msg. append_raises e k = Some msg \<and> r = Inl msg"
    by blast
  show ?thesis
  proof (cases "k = length ts")
    case True
    with res have r: "r = Inr (length ts)" by simp
    have "receive_batch_transactions tok e ts (Some tok) w =
       (Inr (PDict
             [(''status'', PStr ''success''),
              (''message'', PStr (''Batch of '' @ dec (length ts) @
                                  '' transactions received successfully'')),
              (''batch_id'', PStr ?b),
              (''total_received'', PInt (int (length (received_transactions w1))))]), w1)"
      using assms bl r
      by (simp add: receive_batch_transactions_def check_token_ok
          receive_batch_transactions_try_def)
    with store ok True k show ?thesis
      by (intro exI [of _ k]) simp
  next
    case False
    with res obtain msg where m: "append_raises e k = Some msg" and r: "r = Inl msg"
      by auto
    have "receive_batch_transactions tok e ts (Some tok) w =
       (Inl (HTTPException 500 (''Error processing batch: '' @ msg)),
        logger ERROR ''[POC V2 ERROR] Failed to process batch: {}'' [PStr msg] w1)"
      using assms bl r
      by (simp add: receive_batch_transactions_def check_token_ok
          receive_batch_transactions_try_def)
    with store ok False k m show ?thesis
      by (intro exI [of _ k]) simp
  qed
qed

lemma receive_batch_transactions_all:
  assumes "tok \<noteq> []" and "\<forall>i<length ts. append_raises e i = None"
  shows "received_transactions (snd (receive_batch_transactions tok e ts (Some tok) w)) =
       received_transactions w @
       map (\<lambda>i. dict_of (ts ! i) @
               [(''received_at'', PStr (isoformat (now e (Suc i)))),
                (''batch_id'', PStr (strftime (now e 0) ''%Y%m%d_%H%M%S'')),
                (''poc_id'', PInt (int (length (received_transactions w) + i) + 1))])
         [0..<length ts]"
    and "fst (receive_batch_transactions tok e ts (Some tok) w) =
          Inr (PDict
             [(''status'', PStr ''success''),
              (''message'', PStr (''Batch of '' @ dec (length ts) @
                                  '' transactions received successfully'')),
              (''batch_id'', PStr (strftime (now e 0) ''%Y%m%d_%H%M%S'')),
              (''total_received'', PInt (int (length (received_transactions w) + length ts)))])"
proof -
  let ?r = "receive_batch_transactions tok e ts (Some tok) w"
  from receive_batch_transactions_run [OF assms(1), of ts e w]
  obtain k where k: "k \<le> length ts"
    and store: "received_transactions (snd ?r) =
       received_transactions w @
       map (\<lambda>i. dict_of (ts ! i) @
               [(''received_at'', PStr (isoformat (now e (Suc i)))),
                (''batch_id'', PStr (strftime (now e 0) ''%Y%m%d_%H%M%S'')),
                (''poc_id'', PInt (int (length (received_transactions w) + i) + 1))])
         [0..<k]"
    and res: "if k = length ts then
        fst ?r =
          Inr (PDict
             [(''status'', PStr ''success''),
              (''message'', PStr (''Batch of '' @ dec (length ts) @
                                  '' transactions received successfully'')),
              (''batch_id'', PStr (strftime (now e 0) ''%Y%m%d_%H%M%S'')),
              (''total_received'', PInt (int (length (received_transactions w) + length ts)))])
      else \<exists>msg. append_raises e k = Some msg \<and>
             fst ?r = Inl (HTTPException 500 (''Error processing batch: '' @ msg))"
    by blast
  have keq: "k = length ts"
  proof (rule ccontr)
    assume "k \<noteq> length ts"
    with res k assms(2) show False by auto
  qed
  show "received_transactions (snd ?r) =
       received_transactions w @
       map (\<lambda>i. dict_of (ts ! i) @
               [(''received_at'', PStr (isoformat (now e (Suc i)))),
                (''batch_id'', PStr (strftime (now e 0) ''%Y%m%d_%H%M%S'')),
                (''poc_id'', PInt (int (length (received_transactions w) + i) + 1))])
         [0..<length ts]"
    using store unfolding keq .
  show "fst ?r =
          Inr (PDict
             [(''status'', PStr ''success''),
              (''message'', PStr (''Batch of '' @ dec (length ts) @
                                  '' transactions received successfully'')),
              (''batch_id'', PStr (strftime (now e 0) ''%Y%m%d_%H%M%S'')),
              (''total_received'', PInt (int (length (received_transactions w) + length ts)))])"
    using res keq by simp
qed

lemma check_token_cases:
  obtains (ok) "tok \<noteq> []" "x = Some tok" "check_token tok x w = (Inr (), w)"
  | (fail) ex w0 where "check_token tok x w = (Inl ex, w0)"
      "received_transactions w0 = received_transactions w"
  by (cases "tok = []"; cases "x = Some tok") (auto simp: check_token_def split: option.splits)

lemma get_received_transactions_store:
  "received_transactions (snd (get_received_transactions tok e x w)) = received_transactions w"
  by (cases tok x w rule: check_token_cases) (simp_all add: get_received_transactions_def)

lemma poc_statistics_store:
  "received_transactions (snd (poc_statistics tok e x w)) = received_transactions w"
  by (cases tok x w rule: check_token_cases)
    (simp_all add: poc_statistics_def Let_def split: sum.splits)

lemma receive_user_transaction_fail:
  "check_token tok x w = (Inl ex, w0) \<Longrightarrow> receive_user_transaction tok e t x w = (Inl ex, w0)"
  by (simp add: receive_user_transaction_def)

lemma receive_batch_transactions_fail:
  "check_token tok x w = (Inl ex, w0) \<Longrightarrow> receive_batch_transactions tok e ts x w = (Inl ex, w0)"
  by (simp add: receive_batch_transactions_def)

lemma new_single_record:
  "map_of (dict_of t @ [(''received_at'', PStr s), (''poc_id'', PInt p)]) ''poc_id'' = Some (PInt p) \<and>
   map_of (dict_of t @ [(''received_at'', PStr s), (''poc_id'', PInt p)]) ''received_at'' = Some (PStr s) \<and>
   dict_get (dict_of t @ [(''received_at'', PStr s), (''poc_id'', PInt p)]) ''usrname'' = opt_str (usrname t)"
  by (simp add: dict_of_def dict_get_def)

lemma new_batch_record:
  "map_of (dict_of t @ [(''received_at'', PStr s), (''batch_id'', PStr b), (''poc_id'', PInt p)]) ''poc_id'' = Some (PInt p) \<and>
   map_of (dict_of t @ [(''received_at'', PStr s), (''batch_id'', PStr b), (''poc_id'', PInt p)]) ''received_at'' = Some (PStr s) \<and>
   map_of (dict_of t @ [(''received_at'', PStr s), (''batch_id'', PStr b), (''poc_id'', PInt p)]) ''batch_id'' = Some (PStr b) \<and>
   dict_get (dict_of t @ [(''received_at'', PStr s), (''batch_id'', PStr b), (''poc_id'', PInt p)]) ''usrname'' = opt_str (usrname t)"
  by (simp add: dict_of_def dict_get_def)

lemma handle_appends:
  "\<exists>new. received_transactions (snd (handle tok e r w)) = received_transactions w @ new \<and>
     (\<forall>i<length new.
        map_of (new ! i) ''poc_id'' = Some (PInt (int (length (received_transactions w) + i) + 1)) \<and>
        (\<exists>n. map_of (new ! i) ''received_at'' = Some (PStr (isoformat (now e n)))) \<and>
        (\<exists>u. dict_get (new ! i) ''usrname'' = opt_str u))"
proof (cases r)
  case GetRoot
  then show ?thesis by (simp add: root_def)
next
  case GetHealth
  then show ?thesis by (simp add: health_check_def)
next
  case (GetUserTransactions x)
  then show ?thesis by (simp add: get_received_transactions_store)
next
  case (GetStats x)
  then show ?thesis by (simp add: poc_statistics_store)
next
  case (PostUserTransaction t x)
  show ?thesis
  proof (cases tok x w rule: check_token_cases)
    case fail
    then show ?thesis using PostUserTransaction
      by (simp add: receive_user_transaction_fail)
  next
    case ok
    show ?thesis
    proof (cases "append_raises e 0")
      case None
      show ?thesis
        unfolding PostUserTransaction handle.simps ok(2)
          receive_user_transaction_ok [OF ok(1) None]
        by (intro exI [of _ "[dict_of t @ [(''received_at'', PStr (isoformat (now e 0))),
                  (''poc_id'', PInt (int (length (received_transactions w)) + 1))]]"])
          (auto simp: new_single_record simp del: map_of_append)
    next
      case (Some msg)
      show ?thesis
        unfolding PostUserTransaction handle.simps ok(2)
          receive_user_transaction_raises [OF ok(1) Some]
        by simp
    qed
  qed
next
  case (PostBatch ts x)
  show ?thesis
  proof (cases tok x w rule: check_token_cases)
    case fail
    then show ?thesis using PostBatch
      by (simp add: receive_batch_transactions_fail)
  next
    case ok
    from receive_batch_transactions_run [OF ok(1), of ts e w]
    obtain k where "received_transactions (snd (receive_batch_transactions tok e ts (Some tok) w)) =
       received_transactions w @
       map (\<lambda>i. dict_of (ts ! i) @
               [(''received_at'', PStr (isoformat (now e (Suc i)))),
                (''batch_id'', PStr (strftime (now e 0) ''%Y%m%d_%H%M%S'')),
                (''poc_id'', PInt (int (length (received_transactions w) + i) + 1))])
         [0..<k]"
      by blast
    then show ?thesis
      unfolding PostBatch handle.simps ok(2)
      by (intro exI [of _ "map (\<lambda>i. dict_of (ts ! i) @
               [(''received_at'', PStr (isoformat (now e (Suc i)))),
                (''batch_id'', PStr (strftime (now e 0) ''%Y%m%d_%H%M%S'')),
                (''poc_id'', PInt (int (length (received_transactions w) + i) + 1))])
         [0..<k]"]) (auto simp: new_batch_record simp del: map_of_append)
  qed
qed

lemma handle_store_inv:
  assumes "store_inv (received_transactions w)"
  shows "store_inv (received_transactions (snd (handle tok e r w)))"
proof -
  from handle_appends [of tok e r w] obtain new
    where st: "received_transactions (snd (handle tok e r w)) = received_transactions w @ new"
      and new: "\<forall>i<length new.
        map_of (new ! i) ''poc_id'' = Some (PInt (int (length (received_transactions w) + i) + 1)) \<and>
        (\<exists>n. map_of (new ! i) ''received_at'' = Some (PStr (isoformat (now e n)))) \<and>
        (\<exists>u. dict_get (new ! i) ''usrname'' = opt_str u)"
    by blast
  show ?thesis
    unfolding st store_inv_def
  proof (intro allI impI)
    fix i assume i: "i < length (received_transactions w @ new)"
    show "map_of ((received_transactions w @ new) ! i) ''poc_id'' = Some (PInt (int i + 1)) \<and>
          wf_record ((received_transactions w @ new) ! i)"
    proof (cases "i < length (received_transactions w)")
      case True
      then show ?thesis using assms by (simp add: store_inv_def nth_append)
    next
      case False
      then have j: "i - length (received_transactions w) < length new"
        and ij: "length (received_transactions w) + (i - length (received_transactions w)) = i"
        using i by auto
      from new j have
        "map_of (new ! (i - length (received_transactions w))) ''poc_id'' =
           Some (PInt (int (length (received_transactions w) + (i - length (received_transactions w))) + 1))"
        "wf_record (new ! (i - length (received_transactions w)))"
        unfolding wf_record_def by blast+
      then show ?thesis using False unfolding ij by (simp add: nth_append)
    qed
  qed
qed

lemma serve_store_inv:
  "store_inv (received_transactions w) \<Longrightarrow> store_inv (received_transactions (serve tok rs w))"
  by (induction rs arbitrary: w) (auto simp: handle_store_inv)

lemma serve_appends:
  "\<exists>new. received_transactions (serve tok rs w) = received_transactions w @ new"
proof (induction rs arbitrary: w)
  case Nil
  show ?case by simp
next
  case (Cons a rs)
  obtain e r where a: "a = (e, r)" by (cases a)
  from handle_appends [of tok e r w] obtain n1
    where 1: "received_transactions (snd (handle tok e r w)) = received_transactions w @ n1"
    by blast
  from Cons.IH [of "snd (handle tok e r w)"] obtain n2
    where 2: "received_transactions (serve tok rs (snd (handle tok e r w))) =
              received_transactions (snd (handle tok e r w)) @ n2"
    by blast
  show ?case unfolding a using 1 2 by simp
qed

lemma startup_store_inv: "store_inv (received_transactions startup)"
  by (simp add: store_inv_def startup_def)

lemma list_of_set_props:
  "distinct (list_of_set e xs) \<and> set (list_of_set e xs) = set xs"
  by (simp add: list_of_set_def)

lemma usernames_of_store:
  assumes "store_inv xs"
  shows "set (map (\<lambda>t. dict_get t ''usrname'') (filter (\<lambda>t. truthy (dict_get t ''usrname'')) xs)) =
         PStr ` {u. u \<noteq> [] \<and> (\<exists>d\<in>set xs. dict_get d ''usrname'' = PStr u)}"
proof -
  have wf: "\<exists>u. dict_get d ''usrname'' = opt_str u" if "d \<in> set xs" for d
  proof -
    from that obtain i where "i < length xs" "xs ! i = d"
      by (auto simp: in_set_conv_nth)
    with assms show ?thesis
      unfolding store_inv_def wf_record_def by blast
  qed
  have *: "truthy (dict_get d ''usrname'') \<longleftrightarrow>
        (\<exists>s. s \<noteq> [] \<and> dict_get d ''usrname'' = PStr s)" if "d \<in> set xs" for d
  proof -
    from wf [OF that] obtain u where u: "dict_get d ''usrname'' = opt_str u" by blast
    show ?thesis unfolding u by (cases u) (auto simp: opt_str_def)
  qed
  show ?thesis
  proof (intro set_eqI iffI)
    fix v
    assume "v \<in> set (map (\<lambda>t. dict_get t ''usrname'') (filter (\<lambda>t. truthy (dict_get t ''usrname'')) xs))"
    then have "v \<in> (\<lambda>t. dict_get t ''usrname'') ` set (filter (\<lambda>t. truthy (dict_get t ''usrname'')) xs)"
      by (simp only: set_map)
    then obtain d where "d \<in> set (filter (\<lambda>t. truthy (dict_get t ''usrname'')) xs)"
      and dv: "v = dict_get d ''usrname''"
      by (rule imageE)
    then have d: "d \<in> set xs" "truthy (dict_get d ''usrname'')" "v = dict_get d ''usrname''"
      by simp_all
    with * [OF d(1)] obtain s where "s \<noteq> []" "dict_get d ''usrname'' = PStr s" by blast
    with d show "v \<in> PStr ` {u. u \<noteq> [] \<and> (\<exists>d\<in>set xs. dict_get d ''usrname'' = PStr u)}"
      by blast
  next
    fix v
    assume "v \<in> PStr ` {u. u \<noteq> [] \<and> (\<exists>d\<in>set xs. dict_get d ''usrname'' = PStr u)}"
    then obtain u d where "v = PStr u" "u \<noteq> []" "d \<in> set xs" "dict_get d ''usrname'' = PStr u"
      by blast
    then have din: "d \<in> set (filter (\<lambda>t. truthy (dict_get t ''usrname'')) xs)"
      and dv: "v = dict_get d ''usrname''"
      by simp_all
    from din have "dict_get d ''usrname'' \<in>
        (\<lambda>t. dict_get t ''usrname'') ` set (filter (\<lambda>t. truthy (dict_get t ''usrname'')) xs)"
      by (rule imageI)
    then show "v \<in> set (map (\<lambda>t. dict_get t ''usrname'') (filter (\<lambda>t. truthy (dict_get t ''usrname'')) xs))"
      unfolding set_map dv .
  qed
qed

lemma batch_loop_all:
  assumes "\<forall>i<length ts. append_raises e (n + i) = None"
  shows "fst (batch_loop e b ts n w) = Inr (n + length ts)"
proof -
  from batch_loop_run [of ts e b n w] obtain k where k: "k \<le> length ts"
    and res: "if k = length ts then fst (batch_loop e b ts n w) = Inr (n + length ts)
      else \<exists>msg. append_raises e (n + k) = Some msg \<and> fst (batch_loop e b ts n w) = Inl msg"
    by blast
  have "k = length ts"
  proof (rule ccontr)
    assume "k \<noteq> length ts"
    with res k assms show False by auto
  qed
  with res show ?thesis by simp
qed

lemma receive_batch_transactions_stop:
  assumes "tok \<noteq> []" and "j < length ts"
    and "\<forall>i<j. append_raises e i = None" and "append_raises e j = Some cause"
  shows "received_transactions (snd (receive_batch_transactions tok e ts (Some tok) w)) =
       received_transactions w @
       map (\<lambda>i. dict_of (ts ! i) @
               [(''received_at'', PStr (isoformat (now e (Suc i)))),
                (''batch_id'', PStr (strftime (now e 0) ''%Y%m%d_%H%M%S'')),
                (''poc_id'', PInt (int (length (received_transactions w) + i) + 1))])
         [0..<j]"
    and "fst (receive_batch_transactions tok e ts (Some tok) w) =
          Inl (HTTPException 500 (''Error processing batch: '' @ cause))"
proof -
  let ?r = "receive_batch_transactions tok e ts (Some tok) w"
  from receive_batch_transactions_run [OF assms(1), of ts e w]
  obtain k where k: "k \<le> length ts"
    and store: "received_transactions (snd ?r) =
       received_transactions w @
       map (\<lambda>i. dict_of (ts ! i) @
               [(''received_at'', PStr (isoformat (now e (Suc i)))),
                (''batch_id'', PStr (strftime (now e 0) ''%Y%m%d_%H%M%S'')),
                (''poc_id'', PInt (int (length (received_transactions w) + i) + 1))])
         [0..<k]"
    and ok: "\<forall>i<k. append_raises e i = None"
    and res: "if k = length ts then
        fst ?r =
          Inr (PDict
             [(''status'', PStr ''success''),
              (''message'', PStr (''Batch of '' @ dec (length ts) @
                                  '' transactions received successfully'')),
              (''batch_id'', PStr (strftime (now e 0) ''%Y%m%d_%H%M%S'')),
              (''total_received'', PInt (int (length (received_transactions w) + length ts)))])
      else \<exists>msg. append_raises e k = Some msg \<and>
             fst ?r = Inl (HTTPException 500 (''Error processing batch: '' @ msg))"
    by blast
  have "\<not> j < k" using ok assms(4) by auto
  moreover have "\<not> k < j"
  proof
    assume "k < j"
    then have "append_raises e k = None" "k \<noteq> length ts"
      using assms(2,3) by auto
    with res show False by auto
  qed
  ultimately have keq: "k = j" by arith
  show "received_transactions (snd ?r) =
       received_transactions w @
       map (\<lambda>i. dict_of (ts ! i) @
               [(''received_at'', PStr (isoformat (now e (Suc i)))),
                (''batch_id'', PStr (strftime (now e 0) ''%Y%m%d_%H%M%S'')),
                (''poc_id'', PInt (int (length (received_transactions w) + i) + 1))])
         [0..<j]"
    using store unfolding keq .
  show "fst ?r = Inl (HTTPException 500 (''Error processing batch: '' @ cause))"
    using res keq assms(2,4) by auto
qed

lemma receive_batch_transactions_empty:
  "tok \<noteq> [] \<Longrightarrow> snd (receive_batch_transactions tok e [] (Some tok) w) = w"
  by (simp add: receive_batch_transactions_def check_token_ok receive_batch_transactions_try_def)

lemma new_poc_ids_distinct:
  "distinct (map (\<lambda>d. dict_get d ''poc_id'')
     (map (\<lambda>i. dict_of (ts ! i) @
               [(''received_at'', PStr (f i)), (''batch_id'', PStr b),
                (''poc_id'', PInt (int (n + i) + 1))]) [0..<k]))"
proof -
  have eq: "map (\<lambda>d. dict_get d ''poc_id'')
     (map (\<lambda>i. dict_of (ts ! i) @
               [(''received_at'', PStr (f i)), (''batch_id'', PStr b),
                (''poc_id'', PInt (int (n + i) + 1))]) [0..<k]) =
     map (\<lambda>i. PInt (int (n + i) + 1)) [0..<k]"
    by (simp add: dict_get_def new_batch_record del: map_of_append)
  show ?thesis
    unfolding eq by (simp add: distinct_map inj_on_def)
qed

lemma sample_lifetime_length:
  "length (received_transactions (serve ''abc123''
      [(sample_env, PostUserTransaction alice (Some ''abc123'')),
       (sample_env, PostUserTransaction bob None),
       (sample_env, PostBatch [bob, nobody] (Some ''abc123''))] startup)) = 3"
  by code_simp

lemma sample_store_nonempty:
  "received_transactions (serve ''abc123''
      [(sample_env, PostUserTransaction alice (Some ''abc123'')),
       (sample_env, PostUserTransaction alice (Some ''abc123'')),
       (sample_env, PostUserTransaction bob (Some ''abc123''))] startup) \<noteq> []"
  by code_simp

lemma sample_batch_received_at:
  "dict_getitem (received_transactions
      (snd (receive_batch_transactions ''abc123'' sample_env [alice, bob] (Some ''abc123'') startup)) ! 0)
     ''received_at'' = Inr (PStr ''2024-10-27T01:59:59.000001'') \<and>
   dict_getitem (received_transactions
      (snd (receive_batch_transactions ''abc123'' sample_env [alice, bob] (Some ''abc123'') startup)) ! 1)
     ''received_at'' = Inr (PStr ''2024-10-27T01:59:59.000002'')"
  by code_simp

section \<open>The claims\<close>

text \<open>
  C1. The token check is a trichotomy. With an empty configured secret it raises the
  500 misconfiguration error whatever was presented, before any comparison. Otherwise,
  with no token presented or one that differs from the secret, it raises 401
  Unauthorized. Otherwise it returns and leaves the state, log included, as it was.
\<close>

theorem check_token_trichotomy:
  "(WEBHOOK_TOKEN = [] \<longrightarrow>
      check_token WEBHOOK_TOKEN x w =
        (Inl (HTTPException 500 ''Server misconfiguration: WEBHOOK_TOKEN missing''),
         logger ERROR ''[SECURITY] WEBHOOK_TOKEN not configured in environment'' [] w)) \<and>
   (WEBHOOK_TOKEN \<noteq> [] \<and> (x = None \<or> x \<noteq> Some WEBHOOK_TOKEN) \<longrightarrow>
      check_token WEBHOOK_TOKEN x w =
        (Inl (HTTPException 401 ''Unauthorized''),
         logger WARNING ''[SECURITY] Unauthorized access attempt with token: %s'' [opt_str x] w)) \<and>
   (WEBHOOK_TOKEN \<noteq> [] \<and> x = Some WEBHOOK_TOKEN \<longrightarrow>
      check_token WEBHOOK_TOKEN x w = (Inr (), w))"
  by (cases x) (auto simp: check_token_def)

theorem check_token_trichotomy_witness:
  "check_token [] (Some ''abc123'') startup =
     (Inl (HTTPException 500 ''Server misconfiguration: WEBHOOK_TOKEN missing''),
      logger ERROR ''[SECURITY] WEBHOOK_TOKEN not configured in environment'' [] startup) \<and>
   check_token ''abc123'' None startup =
     (Inl (HTTPException 401 ''Unauthorized''),
      logger WARNING ''[SECURITY] Unauthorized access attempt with token: %s'' [PNone] startup) \<and>
   check_token ''abc123'' (Some ''abc12'') startup =
     (Inl (HTTPException 401 ''Unauthorized''),
      logger WARNING ''[SECURITY] Unauthorized access attempt with token: %s''
        [PStr ''abc12''] startup) \<and>
   check_token ''abc123'' (Some ''abc123'') startup = (Inr (), startup)"
  using check_token_trichotomy [of "[]" "Some ''abc123''" startup]
    check_token_trichotomy [of "''abc123''" None startup]
    check_token_trichotomy [of "''abc123''" "Some ''abc12''" startup]
    check_token_trichotomy [of "''abc123''" "Some ''abc123''" startup]
  by (simp add: opt_str_def)

text \<open>
  C2. When the token check fails, each of the four protected handlers (single
  submission, batch submission, listing, statistics) raises the error of the check, 500
  or 401, and returns the state the check left: the list of transactions is the one
  before the request, so nothing was appended and nothing of it is in the answer.
\<close>

theorem token_failure_short_circuits:
  assumes "fst (check_token WEBHOOK_TOKEN x w) = Inl ex"
  shows "receive_user_transaction WEBHOOK_TOKEN e1 transaction x w =
           (Inl ex, snd (check_token WEBHOOK_TOKEN x w)) \<and>
         receive_batch_transactions WEBHOOK_TOKEN e2 transactions x w =
           (Inl ex, snd (check_token WEBHOOK_TOKEN x w)) \<and>
         get_received_transactions WEBHOOK_TOKEN e3 x w =
           (Inl ex, snd (check_token WEBHOOK_TOKEN x w)) \<and>
         poc_statistics WEBHOOK_TOKEN e4 x w =
           (Inl ex, snd (check_token WEBHOOK_TOKEN x w)) \<and>
         received_transactions (snd (check_token WEBHOOK_TOKEN x w)) = received_transactions w \<and>
         (ex = HTTPException 500 ''Server misconfiguration: WEBHOOK_TOKEN missing'' \<or>
          ex = HTTPException 401 ''Unauthorized'')"
proof -
  obtain w0 where c: "check_token WEBHOOK_TOKEN x w = (Inl ex, w0)"
    using assms by (cases "check_token WEBHOOK_TOKEN x w") simp
  have "ex = HTTPException 500 ''Server misconfiguration: WEBHOOK_TOKEN missing'' \<or>
        ex = HTTPException 401 ''Unauthorized''"
    using c by (auto simp: check_token_def split: if_splits)
  moreover have "received_transactions w0 = received_transactions w"
    using c by (cases WEBHOOK_TOKEN x w rule: check_token_cases) simp_all
  ultimately show ?thesis
    using c
    by (simp add: receive_user_transaction_def receive_batch_transactions_def
        get_received_transactions_def poc_statistics_def)
qed

theorem token_failure_short_circuits_witness:
  "fst (check_token ''abc123'' (Some ''guess'') startup) = Inl (HTTPException 401 ''Unauthorized'') \<and>
   fst (receive_user_transaction ''abc123'' sample_env alice (Some ''guess'') startup) =
     Inl (HTTPException 401 ''Unauthorized'') \<and>
   fst (receive_batch_transactions ''abc123'' sample_env [alice, bob] (Some ''guess'') startup) =
     Inl (HTTPException 401 ''Unauthorized'') \<and>
   fst (get_received_transactions ''abc123'' sample_env (Some ''guess'') startup) =
     Inl (HTTPException 401 ''Unauthorized'') \<and>
   fst (poc_statistics ''abc123'' sample_env (Some ''guess'') startup) =
     Inl (HTTPException 401 ''Unauthorized'') \<and>
   received_transactions
     (snd (receive_batch_transactions ''abc123'' sample_env [alice, bob] (Some ''guess'') startup)) = []"
proof -
  have h: "fst (check_token ''abc123'' (Some ''guess'') startup) =
           Inl (HTTPException 401 ''Unauthorized'')"
    by (simp add: check_token_def)
  from token_failure_short_circuits [OF h, of sample_env alice sample_env "[alice, bob]"
      sample_env sample_env] h
  show ?thesis by (simp add: startup_def)
qed

text \<open>
  C3. Whatever the request and the state it meets, the handler leaves the records that
  were in the list where they were and as they were, and every record it adds at a
  position \<open>i\<close> (counted from 0) carries the identifier \<open>i + 1\<close>, the length of the list
  before its append plus one, and a timestamp read from the server's clock. In a process
  lifetime, which starts from the empty list, the identifiers are therefore 1, 2, 3, ...
  in the order of the appends, each record has its identifier and its timestamp, and what
  the list holds at one moment is a prefix of what it holds at any later moment.
\<close>

theorem sequence_ids_append_only:
  "(let old = received_transactions w;
        new = received_transactions (snd (handle WEBHOOK_TOKEN e r w))
    in length old \<le> length new \<and> take (length old) new = old \<and>
       (\<forall>i. length old \<le> i \<and> i < length new \<longrightarrow>
          dict_getitem (new ! i) ''poc_id'' = Inr (PInt (int i + 1)) \<and>
          (\<exists>n. dict_getitem (new ! i) ''received_at'' = Inr (PStr (isoformat (now e n)))))) \<and>
   (let store = received_transactions (serve WEBHOOK_TOKEN requests startup);
        later = received_transactions
                  (serve WEBHOOK_TOKEN afterwards (serve WEBHOOK_TOKEN requests startup))
    in (\<forall>i<length store.
          dict_getitem (store ! i) ''poc_id'' = Inr (PInt (int i + 1)) \<and>
          (\<exists>s. dict_getitem (store ! i) ''received_at'' = Inr (PStr s))) \<and>
       length store \<le> length later \<and> take (length store) later = store)"
proof -
  from handle_appends [of WEBHOOK_TOKEN e r w] obtain new
    where st: "received_transactions (snd (handle WEBHOOK_TOKEN e r w)) =
               received_transactions w @ new"
      and new: "\<forall>i<length new.
        map_of (new ! i) ''poc_id'' = Some (PInt (int (length (received_transactions w) + i) + 1)) \<and>
        (\<exists>n. map_of (new ! i) ''received_at'' = Some (PStr (isoformat (now e n)))) \<and>
        (\<exists>u. dict_get (new ! i) ''usrname'' = opt_str u)"
    by blast
  have step: "dict_getitem ((received_transactions w @ new) ! i) ''poc_id'' = Inr (PInt (int i + 1)) \<and>
      (\<exists>n. dict_getitem ((received_transactions w @ new) ! i) ''received_at'' =
            Inr (PStr (isoformat (now e n))))"
    if "length (received_transactions w) \<le> i" "i < length (received_transactions w @ new)" for i
  proof -
    have j: "i - length (received_transactions w) < length new"
      and ij: "length (received_transactions w) + (i - length (received_transactions w)) = i"
      using that by auto
    from new j have
      "map_of (new ! (i - length (received_transactions w))) ''poc_id'' =
         Some (PInt (int (length (received_transactions w) + (i - length (received_transactions w))) + 1))"
      "\<exists>n. map_of (new ! (i - length (received_transactions w))) ''received_at'' =
         Some (PStr (isoformat (now e n)))"
      by blast+
    then show ?thesis using that unfolding ij by (auto simp: nth_append dict_getitem_def)
  qed
  have inv: "store_inv (received_transactions (serve WEBHOOK_TOKEN requests startup))"
    by (rule serve_store_inv [OF startup_store_inv])
  have life: "dict_getitem (received_transactions (serve WEBHOOK_TOKEN requests startup) ! i)
                ''poc_id'' = Inr (PInt (int i + 1)) \<and>
      (\<exists>s. dict_getitem (received_transactions (serve WEBHOOK_TOKEN requests startup) ! i)
              ''received_at'' = Inr (PStr s))"
    if "i < length (received_transactions (serve WEBHOOK_TOKEN requests startup))" for i
    using inv that unfolding store_inv_def wf_record_def
    by (auto simp: dict_getitem_def)
  from serve_appends [of WEBHOOK_TOKEN afterwards "serve WEBHOOK_TOKEN requests startup"]
  obtain n2 where later:
    "received_transactions (serve WEBHOOK_TOKEN afterwards (serve WEBHOOK_TOKEN requests startup)) =
     received_transactions (serve WEBHOOK_TOKEN requests startup) @ n2"
    by blast
  show ?thesis
    unfolding Let_def st later using step life by simp
qed

theorem sequence_ids_append_only_witness:
  "length (received_transactions (serve ''abc123''
      [(sample_env, PostUserTransaction alice (Some ''abc123'')),
       (sample_env, PostUserTransaction bob None),
       (sample_env, PostBatch [bob, nobody] (Some ''abc123''))] startup)) = 3 \<and>
   dict_getitem (received_transactions (serve ''abc123''
      [(sample_env, PostUserTransaction alice (Some ''abc123'')),
       (sample_env, PostUserTransaction bob None),
       (sample_env, PostBatch [bob, nobody] (Some ''abc123''))] startup) ! 0) ''poc_id'' =
     Inr (PInt 1) \<and>
   dict_getitem (received_transactions (serve ''abc123''
      [(sample_env, PostUserTransaction alice (Some ''abc123'')),
       (sample_env, PostUserTransaction bob None),
       (sample_env, PostBatch [bob, nobody] (Some ''abc123''))] startup) ! 1) ''poc_id'' =
     Inr (PInt 2) \<and>
   dict_getitem (received_transactions (serve ''abc123''
      [(sample_env, PostUserTransaction alice (Some ''abc123'')),
       (sample_env, PostUserTransaction bob None),
       (sample_env, PostBatch [bob, nobody] (Some ''abc123''))] startup) ! 2) ''poc_id'' =
     Inr (PInt 3)"
proof -
  let ?store = "received_transactions (serve ''abc123''
      [(sample_env, PostUserTransaction alice (Some ''abc123'')),
       (sample_env, PostUserTransaction bob None),
       (sample_env, PostBatch [bob, nobody] (Some ''abc123''))] startup)"
  have len: "length ?store = 3" by (rule sample_lifetime_length)
  have "\<forall>i<length ?store. dict_getitem (?store ! i) ''poc_id'' = Inr (PInt (int i + 1))"
    using sequence_ids_append_only [of startup "''abc123''" sample_env GetHealth
      "[(sample_env, PostUserTransaction alice (Some ''abc123'')),
       (sample_env, PostUserTransaction bob None),
       (sample_env, PostBatch [bob, nobody] (Some ''abc123''))]" "[]"]
    unfolding Let_def by blast
  then have "\<forall>i<3. dict_getitem (?store ! i) ''poc_id'' = Inr (PInt (int i + 1))"
    unfolding len .
  then have "dict_getitem (?store ! 0) ''poc_id'' = Inr (PInt (int 0 + 1))"
    "dict_getitem (?store ! 1) ''poc_id'' = Inr (PInt (int 1 + 1))"
    "dict_getitem (?store ! 2) ''poc_id'' = Inr (PInt (int 2 + 1))"
    by simp_all
  with len show ?thesis by simp
qed

text \<open>
  C4. An authenticated single submission whose append does not raise adds exactly one
  record to the list, and answers with status success, the identifier given to that
  record (the length of the list before, plus one), the user name of the submission and
  the timestamp stored in the record, which is the server's clock reading.
\<close>

theorem single_submission_appends_one:
  assumes "WEBHOOK_TOKEN \<noteq> []" and "append_raises e 0 = None"
  shows "let (response, w') =
               receive_user_transaction WEBHOOK_TOKEN e transaction (Some WEBHOOK_TOKEN) w;
             stored = last (received_transactions w')
         in received_transactions w' = received_transactions w @ [stored] \<and>
            length (received_transactions w') = length (received_transactions w) + 1 \<and>
            dict_getitem stored ''poc_id'' =
              Inr (PInt (int (length (received_transactions w)) + 1)) \<and>
            dict_getitem stored ''received_at'' = Inr (PStr (isoformat (now e 0))) \<and>
            response = Inr (PDict
              [(''status'', PStr ''success''),
               (''message'', PStr ''User transaction received successfully''),
               (''poc_id'', PInt (int (length (received_transactions w)) + 1)),
               (''user'', opt_str (usrname transaction)),
               (''received_at'', PStr (isoformat (now e 0)))])"
  unfolding receive_user_transaction_ok [OF assms]
  by (simp add: dict_getitem_def dict_of_def)

theorem single_submission_appends_one_witness:
  "''abc123'' \<noteq> [] \<and> append_raises sample_env 0 = None \<and>
   length (received_transactions
     (snd (receive_user_transaction ''abc123'' sample_env alice (Some ''abc123'') startup))) = 1 \<and>
   fst (receive_user_transaction ''abc123'' sample_env alice (Some ''abc123'') startup) =
     Inr (PDict
       [(''status'', PStr ''success''),
        (''message'', PStr ''User transaction received successfully''),
        (''poc_id'', PInt 1),
        (''user'', PStr ''alice''),
        (''received_at'', PStr (isoformat (now sample_env 0)))])"
proof -
  have h1: "''abc123'' \<noteq> []" by simp
  have h2: "append_raises sample_env 0 = None" by (simp add: sample_env_def)
  from single_submission_appends_one [OF h1 h2, of alice startup] h2
  show ?thesis
    by (simp add: split_def Let_def startup_def alice_def opt_str_def)
qed

text \<open>
  C5. An authenticated batch submission of K transactions none of whose appends raises
  reads the clock once before the loop for the batch identifier, which has the shape
  \<^verbatim>\<open>YYYYMMDD_HHMMSS\<close> and is stored in every record of the batch; it appends the K
  records in the order of the input, with the K distinct identifiers that follow the
  length of the list; the list grows by exactly K. With K = 0 the call succeeds, counts 0
  received transactions and leaves the state as it was.
\<close>

theorem batch_submission_appends_all:
  assumes "WEBHOOK_TOKEN \<noteq> []" and "\<forall>i<length transactions. append_raises e i = None"
  shows "let (response, w') =
               receive_batch_transactions WEBHOOK_TOKEN e transactions (Some WEBHOOK_TOKEN) w;
             batch_id = strftime (now e 0) ''%Y%m%d_%H%M%S'';
             n = length (received_transactions w)
         in received_transactions w' =
              received_transactions w @
              map (\<lambda>i. dict_of (transactions ! i) @
                      [(''received_at'', PStr (isoformat (now e (Suc i)))),
                       (''batch_id'', PStr batch_id),
                       (''poc_id'', PInt (int (n + i) + 1))])
                [0..<length transactions] \<and>
            length (received_transactions w') = n + length transactions \<and>
            distinct (map (\<lambda>d. dict_get d ''poc_id'') (drop n (received_transactions w'))) \<and>
            fst (batch_loop e batch_id transactions 0 w) = Inr (length transactions) \<and>
            response = Inr (PDict
              [(''status'', PStr ''success''),
               (''message'', PStr (''Batch of '' @ dec (length transactions) @
                                   '' transactions received successfully'')),
               (''batch_id'', PStr batch_id),
               (''total_received'', PInt (int (n + length transactions)))]) \<and>
            (valid_datetime (now e 0) \<and> 1000 \<le> year (now e 0) \<longrightarrow> yyyymmdd_hhmmss batch_id) \<and>
            (transactions = [] \<longrightarrow> w' = w)"
proof -
  let ?r = "receive_batch_transactions WEBHOOK_TOKEN e transactions (Some WEBHOOK_TOKEN) w"
  note st = receive_batch_transactions_all(1) [OF assms, of w]
  note rs = receive_batch_transactions_all(2) [OF assms, of w]
  have cnt: "fst (batch_loop e (strftime (now e 0) ''%Y%m%d_%H%M%S'') transactions 0 w) =
             Inr (length transactions)"
    using batch_loop_all [of transactions e 0] assms(2) by simp
  have dist: "distinct (map (\<lambda>d. dict_get d ''poc_id'')
      (drop (length (received_transactions w)) (received_transactions (snd ?r))))"
    unfolding st using new_poc_ids_distinct [of transactions "\<lambda>i. isoformat (now e (Suc i))"]
    by simp
  have len: "length (received_transactions (snd ?r)) =
             length (received_transactions w) + length transactions"
    unfolding st by simp
  have empty: "transactions = [] \<longrightarrow> snd ?r = w"
    using receive_batch_transactions_empty [OF assms(1)] by simp
  have fmt: "valid_datetime (now e 0) \<and> 1000 \<le> year (now e 0) \<longrightarrow>
             yyyymmdd_hhmmss (strftime (now e 0) ''%Y%m%d_%H%M%S'')"
    using batch_id_format by simp
  show ?thesis
    unfolding Let_def split_def
    using st rs cnt dist len empty fmt by (intro conjI)
qed

theorem batch_submission_appends_all_witness:
  "''abc123'' \<noteq> [] \<and>
   append_raises sample_env 0 = None \<and> append_raises sample_env 1 = None \<and>
   valid_datetime (now sample_env 0) \<and> 1000 \<le> year (now sample_env 0) \<and>
   length (received_transactions
     (snd (receive_batch_transactions ''abc123'' sample_env [alice, bob] (Some ''abc123'') startup))) = 2 \<and>
   yyyymmdd_hhmmss (strftime (now sample_env 0) ''%Y%m%d_%H%M%S'') \<and>
   strftime (now sample_env 0) ''%Y%m%d_%H%M%S'' = ''20241027_015959'' \<and>
   snd (receive_batch_transactions ''abc123'' sample_env [] (Some ''abc123'') startup) = startup"
proof -
  have h1: "''abc123'' \<noteq> []" by simp
  have h2: "\<forall>i<length [alice, bob]. append_raises sample_env i = None"
    by (simp add: sample_env_def)
  have h3: "\<forall>i<length ([] :: UserTransaction list). append_raises sample_env i = None"
    by simp
  have h4: "valid_datetime (now sample_env 0) \<and> 1000 \<le> year (now sample_env 0)"
    by (simp add: sample_env_def sample_time_def valid_datetime_def)
  have h5: "strftime (now sample_env 0) ''%Y%m%d_%H%M%S'' = ''20241027_015959''"
    by code_simp
  have h6: "append_raises sample_env 0 = None \<and> append_raises sample_env 1 = None"
    by (simp add: sample_env_def)
  from batch_submission_appends_all [OF h1 h2, of startup]
    batch_submission_appends_all [OF h1 h3, of startup] h4 h5 h6
  show ?thesis
    by (simp add: split_def Let_def startup_def)
qed

text \<open>
  C6. When, in an authenticated batch submission of K transactions, the append of the
  record at position j < K raises after the j appends before it went through, the call
  raises the 500 error whose detail ends with the text of the exception, and the list
  holds the j records appended so far after the ones it held before: nothing is undone.
\<close>

theorem batch_failure_keeps_prefix:
  assumes "WEBHOOK_TOKEN \<noteq> []" and "j < length transactions"
    and "\<forall>i<j. append_raises e i = None" and "append_raises e j = Some cause"
  shows "let (response, w') =
               receive_batch_transactions WEBHOOK_TOKEN e transactions (Some WEBHOOK_TOKEN) w
         in response = Inl (HTTPException 500 (''Error processing batch: '' @ cause)) \<and>
            received_transactions w' =
              received_transactions w @
              map (\<lambda>i. dict_of (transactions ! i) @
                      [(''received_at'', PStr (isoformat (now e (Suc i)))),
                       (''batch_id'', PStr (strftime (now e 0) ''%Y%m%d_%H%M%S'')),
                       (''poc_id'', PInt (int (length (received_transactions w) + i) + 1))])
                [0..<j] \<and>
            length (received_transactions w') = length (received_transactions w) + j"
  using receive_batch_transactions_stop [OF assms, of w]
  by (simp add: split_def)

theorem batch_failure_keeps_prefix_witness:
  "''abc123'' \<noteq> [] \<and> 1 < length [alice, bob, nobody] \<and>
   append_raises failing_env 0 = None \<and>
   append_raises failing_env 1 = Some ''out of memory'' \<and>
   fst (receive_batch_transactions ''abc123'' failing_env [alice, bob, nobody]
          (Some ''abc123'') startup) =
     Inl (HTTPException 500 ''Error processing batch: out of memory'') \<and>
   length (received_transactions
     (snd (receive_batch_transactions ''abc123'' failing_env [alice, bob, nobody]
             (Some ''abc123'') startup))) = 1"
proof -
  have h1: "''abc123'' \<noteq> []" by simp
  have h2: "1 < length [alice, bob, nobody]" by simp
  have h3: "\<forall>i<1. append_raises failing_env i = None" by (simp add: failing_env_def)
  have h4: "append_raises failing_env 1 = Some ''out of memory''" by (simp add: failing_env_def)
  have h5: "append_raises failing_env 0 = None" by (simp add: failing_env_def)
  from batch_failure_keeps_prefix [OF h1 h2 h3 h4, of startup] h4 h5
  show ?thesis
    by (simp add: split_def Let_def startup_def)
qed

text \<open>
  C7. The authenticated listing answers, in \<open>last_10_transactions\<close>, with the last
  min(10, count) records of the list in the order they were appended, a suffix of the
  list; on the empty list it answers with the empty sequence. It raises nothing and
  leaves the state as it was.
\<close>

theorem list_recent_is_suffix:
  assumes "WEBHOOK_TOKEN \<noteq> []"
  shows "let (response, w') = get_received_transactions WEBHOOK_TOKEN e (Some WEBHOOK_TOKEN) w;
             store = received_transactions w;
             recent = drop (length store - 10) store
         in response = Inr (PDict
              [(''total_count'', PInt (int (length store))),
               (''last_10_transactions'', PList (map PDict recent)),
               (''last_updated'', PStr (isoformat (now e 0))),
               (''poc_status'', PStr ''active'')]) \<and>
            w' = w \<and>
            length recent = min 10 (length store) \<and>
            store = take (length store - 10) store @ recent \<and>
            (store = [] \<longrightarrow> recent = [])"
  using assms
  by (auto simp: get_received_transactions_def check_token_ok slice_last_def Let_def)

theorem list_recent_is_suffix_witness:
  "''abc123'' \<noteq> [] \<and>
   field (fst (get_received_transactions ''abc123'' sample_env (Some ''abc123'') startup))
     ''last_10_transactions'' = Some (PList []) \<and>
   field (fst (get_received_transactions ''abc123'' sample_env (Some ''abc123'')
     \<lparr>received_transactions = map dict_of [alice, bob, alice, bob, alice, bob, alice, bob,
         alice, bob, nobody], log_records = []\<rparr>)) ''last_10_transactions'' =
     Some (PList (map PDict (map dict_of [bob, alice, bob, alice, bob, alice, bob,
         alice, bob, nobody])))"
proof -
  have h1: "''abc123'' \<noteq> []" by simp
  from list_recent_is_suffix [OF h1, of sample_env startup]
    list_recent_is_suffix [OF h1, of sample_env
      "\<lparr>received_transactions = map dict_of [alice, bob, alice, bob, alice, bob, alice, bob,
         alice, bob, nobody], log_records = []\<rparr>"]
  show ?thesis
    by (simp add: split_def Let_def startup_def field_def)
qed

text \<open>
  C8, as the code has it. On the empty list the authenticated statistics answer
  \<open>message\<close> "No transactions received yet", \<open>total_count\<close> 0 and \<open>status\<close>
  "waiting_for_data". On a list that is not empty they answer with \<open>unique_users\<close>, the
  number of distinct non-empty user names among the stored records; \<open>user_list\<close>, those
  names once each in some order; \<open>first_transaction\<close> and \<open>last_transaction\<close>, the
  timestamps of the first and of the last record; and \<open>poc_status\<close> "collecting_data":
  this answer has no \<open>status\<close> key. The state is left as it was.
\<close>

theorem statistics_of_store:
  assumes "WEBHOOK_TOKEN \<noteq> []"
  shows "let w = serve WEBHOOK_TOKEN requests startup;
             store = received_transactions w;
             (response, w') = poc_statistics WEBHOOK_TOKEN e (Some WEBHOOK_TOKEN) w;
             usernames = {u. u \<noteq> [] \<and> (\<exists>d\<in>set store. dict_get d ''usrname'' = PStr u)}
         in w' = w \<and>
            (store = [] \<longrightarrow>
               response = Inr (PDict
                 [(''message'', PStr ''No transactions received yet''),
                  (''total_count'', PInt 0),
                  (''status'', PStr ''waiting_for_data'')])) \<and>
            (store \<noteq> [] \<longrightarrow>
               (\<exists>user_list first_at last_at.
                  response = Inr (PDict
                    [(''total_transactions'', PInt (int (length store))),
                     (''unique_users'', PInt (int (card usernames))),
                     (''user_list'', PList user_list),
                     (''first_transaction'', PStr first_at),
                     (''last_transaction'', PStr last_at),
                     (''poc_status'', PStr ''collecting_data'')]) \<and>
                  distinct user_list \<and> set user_list = PStr ` usernames \<and>
                  dict_getitem (hd store) ''received_at'' = Inr (PStr first_at) \<and>
                  dict_getitem (last store) ''received_at'' = Inr (PStr last_at)))"
proof -
  define w where "w = serve WEBHOOK_TOKEN requests startup"
  define store where "store = received_transactions w"
  define users where "users = map (\<lambda>t. dict_get t ''usrname'')
      (filter (\<lambda>t. truthy (dict_get t ''usrname'')) store)"
  define names where "names = {u. u \<noteq> [] \<and> (\<exists>d\<in>set store. dict_get d ''usrname'' = PStr u)}"
  have inv: "store_inv store"
    unfolding store_def w_def by (rule serve_store_inv [OF startup_store_inv])
  have ct: "check_token WEBHOOK_TOKEN (Some WEBHOOK_TOKEN) w = (Inr (), w)"
    using assms by (rule check_token_ok)
  have props: "distinct (list_of_set e users)" "set (list_of_set e users) = PStr ` names"
    using list_of_set_props [of e users] usernames_of_store [OF inv]
    unfolding users_def names_def by simp_all
  have "length (list_of_set e users) = card (PStr ` names)"
    using props distinct_card [of "list_of_set e users"] by simp
  also have "\<dots> = card names"
    by (rule card_image) (simp add: inj_on_def)
  finally have len: "length (list_of_set e users) = card names" .
  have empty: "poc_statistics WEBHOOK_TOKEN e (Some WEBHOOK_TOKEN) w =
      (Inr (PDict
         [(''message'', PStr ''No transactions received yet''),
          (''total_count'', PInt 0),
          (''status'', PStr ''waiting_for_data'')]), w)" if "store = []"
    using that unfolding poc_statistics_def ct store_def by simp
  have full: "\<exists>first_at last_at.
      poc_statistics WEBHOOK_TOKEN e (Some WEBHOOK_TOKEN) w =
        (Inr (PDict
           [(''total_transactions'', PInt (int (length store))),
            (''unique_users'', PInt (int (card names))),
            (''user_list'', PList (list_of_set e users)),
            (''first_transaction'', PStr first_at),
            (''last_transaction'', PStr last_at),
            (''poc_status'', PStr ''collecting_data'')]), w) \<and>
      dict_getitem (hd store) ''received_at'' = Inr (PStr first_at) \<and>
      dict_getitem (last store) ''received_at'' = Inr (PStr last_at)" if ne: "store \<noteq> []"
  proof -
    have "wf_record (hd store)" "wf_record (last store)"
      using inv ne unfolding store_inv_def
      by (simp_all add: hd_conv_nth last_conv_nth)
    then obtain f l where f: "dict_getitem (hd store) ''received_at'' = Inr (PStr f)"
      and l: "dict_getitem (last store) ''received_at'' = Inr (PStr l)"
      unfolding wf_record_def dict_getitem_def by auto
    have "poc_statistics WEBHOOK_TOKEN e (Some WEBHOOK_TOKEN) w =
        (Inr (PDict
           [(''total_transactions'', PInt (int (length store))),
            (''unique_users'', PInt (int (length (list_of_set e users)))),
            (''user_list'', PList (list_of_set e users)),
            (''first_transaction'', PStr f),
            (''last_transaction'', PStr l),
            (''poc_status'', PStr ''collecting_data'')]), w)"
      using ne f l unfolding poc_statistics_def ct users_def store_def
      by (simp add: Let_def)
    with f l len show ?thesis by simp
  qed
  have "w' = w \<and>
            (store = [] \<longrightarrow>
               response = Inr (PDict
                 [(''message'', PStr ''No transactions received yet''),
                  (''total_count'', PInt 0),
                  (''status'', PStr ''waiting_for_data'')])) \<and>
            (store \<noteq> [] \<longrightarrow>
               (\<exists>user_list first_at last_at.
                  response = Inr (PDict
                    [(''total_transactions'', PInt (int (length store))),
                     (''unique_users'', PInt (int (card names))),
                     (''user_list'', PList user_list),
                     (''first_transaction'', PStr first_at),
                     (''last_transaction'', PStr last_at),
                     (''poc_status'', PStr ''collecting_data'')]) \<and>
                  distinct user_list \<and> set user_list = PStr ` names \<and>
                  dict_getitem (hd store) ''received_at'' = Inr (PStr first_at) \<and>
                  dict_getitem (last store) ''received_at'' = Inr (PStr last_at)))"
    if r: "poc_statistics WEBHOOK_TOKEN e (Some WEBHOOK_TOKEN) w = (response, w')"
    for response w'
  proof (cases "store = []")
    case True
    with empty r show ?thesis by simp
  next
    case False
    from full [OF False] r props False show ?thesis by auto
  qed
  then show ?thesis
    unfolding Let_def w_def [symmetric] store_def [symmetric] names_def [symmetric]
    by (cases "poc_statistics WEBHOOK_TOKEN e (Some WEBHOOK_TOKEN) w") simp
qed

theorem statistics_of_store_witness:
  "''abc123'' \<noteq> [] \<and>
   received_transactions (serve ''abc123'' [] startup) = [] \<and>
   fst (poc_statistics ''abc123'' sample_env (Some ''abc123'') (serve ''abc123'' [] startup)) =
     Inr (PDict
       [(''message'', PStr ''No transactions received yet''),
        (''total_count'', PInt 0),
        (''status'', PStr ''waiting_for_data'')]) \<and>
   received_transactions (serve ''abc123''
      [(sample_env, PostUserTransaction alice (Some ''abc123'')),
       (sample_env, PostUserTransaction alice (Some ''abc123'')),
       (sample_env, PostUserTransaction bob (Some ''abc123''))] startup) \<noteq> [] \<and>
   (\<exists>user_list.
      field (fst (poc_statistics ''abc123'' sample_env (Some ''abc123'') (serve ''abc123''
        [(sample_env, PostUserTransaction alice (Some ''abc123'')),
         (sample_env, PostUserTransaction alice (Some ''abc123'')),
         (sample_env, PostUserTransaction bob (Some ''abc123''))] startup))) ''user_list'' =
        Some (PList user_list) \<and>
      distinct user_list \<and>
      field (fst (poc_statistics ''abc123'' sample_env (Some ''abc123'') (serve ''abc123''
        [(sample_env, PostUserTransaction alice (Some ''abc123'')),
         (sample_env, PostUserTransaction alice (Some ''abc123'')),
         (sample_env, PostUserTransaction bob (Some ''abc123''))] startup))) ''poc_status'' =
        Some (PStr ''collecting_data''))"
proof -
  have h1: "''abc123'' \<noteq> []" by simp
  have h2: "received_transactions (serve ''abc123'' [] startup) = []"
    by (simp add: startup_def)
  note ne = sample_store_nonempty
  from statistics_of_store [OF h1, of "[]" sample_env] h2
  have a: "fst (poc_statistics ''abc123'' sample_env (Some ''abc123'') (serve ''abc123'' [] startup)) =
     Inr (PDict
       [(''message'', PStr ''No transactions received yet''),
        (''total_count'', PInt 0),
        (''status'', PStr ''waiting_for_data'')])"
    by (simp add: Let_def split_def)
  from statistics_of_store [OF h1, of "[(sample_env, PostUserTransaction alice (Some ''abc123'')),
       (sample_env, PostUserTransaction alice (Some ''abc123'')),
       (sample_env, PostUserTransaction bob (Some ''abc123''))]" sample_env] ne
  have b: "\<exists>user_list.
      field (fst (poc_statistics ''abc123'' sample_env (Some ''abc123'') (serve ''abc123''
        [(sample_env, PostUserTransaction alice (Some ''abc123'')),
         (sample_env, PostUserTransaction alice (Some ''abc123'')),
         (sample_env, PostUserTransaction bob (Some ''abc123''))] startup))) ''user_list'' =
        Some (PList user_list) \<and>
      distinct user_list \<and>
      field (fst (poc_statistics ''abc123'' sample_env (Some ''abc123'') (serve ''abc123''
        [(sample_env, PostUserTransaction alice (Some ''abc123'')),
         (sample_env, PostUserTransaction alice (Some ''abc123'')),
         (sample_env, PostUserTransaction bob (Some ''abc123''))] startup))) ''poc_status'' =
        Some (PStr ''collecting_data'')"
    unfolding Let_def split_def by (auto simp: field_def)
  from h1 h2 a ne b show ?thesis by blast
qed

text \<open>
  Against C8 as it is written: after one submission the statistics hold nothing under
  the key \<open>status\<close>; "collecting_data" is under \<open>poc_status\<close>.
\<close>

theorem statistics_has_no_status_key:
  "field (fst (poc_statistics ''abc123'' sample_env (Some ''abc123'')
      (serve ''abc123'' [(sample_env, PostUserTransaction alice (Some ''abc123''))] startup)))
     ''status'' = None \<and>
   field (fst (poc_statistics ''abc123'' sample_env (Some ''abc123'')
      (serve ''abc123'' [(sample_env, PostUserTransaction alice (Some ''abc123''))] startup)))
     ''poc_status'' = Some (PStr ''collecting_data'')"
  by code_simp

text \<open>
  C9. Each of the five fields of a submission may be given or not, independently of the
  others. In the record stored by a single submission a field that was not given holds
  \<^verbatim>\<open>None\<close>, not 0 and not the empty string, and a field that was given holds the given
  value.
\<close>

theorem absent_fields_stay_absent:
  assumes "WEBHOOK_TOKEN \<noteq> []" and "append_raises e 0 = None"
  shows "let stored = last (received_transactions
                 (snd (receive_user_transaction WEBHOOK_TOKEN e transaction
                         (Some WEBHOOK_TOKEN) w)))
         in dict_getitem stored ''authorizer_usrnbr'' =
              Inr (case authorizer_usrnbr transaction of None \<Rightarrow> PNone | Some i \<Rightarrow> PInt i) \<and>
            dict_getitem stored ''creat_usrnbr'' =
              Inr (case creat_usrnbr transaction of None \<Rightarrow> PNone | Some i \<Rightarrow> PInt i) \<and>
            dict_getitem stored ''creat_time'' =
              Inr (case creat_time transaction of None \<Rightarrow> PNone | Some s \<Rightarrow> PStr s) \<and>
            dict_getitem stored ''data'' =
              Inr (case data transaction of None \<Rightarrow> PNone | Some s \<Rightarrow> PStr s) \<and>
            dict_getitem stored ''usrname'' =
              Inr (case usrname transaction of None \<Rightarrow> PNone | Some s \<Rightarrow> PStr s)"
  unfolding receive_user_transaction_ok [OF assms]
  by (simp add: dict_getitem_def dict_of_def opt_int_def opt_str_def)

theorem absent_fields_stay_absent_witness:
  "''abc123'' \<noteq> [] \<and> append_raises sample_env 0 = None \<and>
   (let stored = last (received_transactions
        (snd (receive_user_transaction ''abc123'' sample_env nobody (Some ''abc123'') startup)))
    in dict_getitem stored ''authorizer_usrnbr'' = Inr PNone \<and>
       dict_getitem stored ''creat_usrnbr'' = Inr PNone \<and>
       dict_getitem stored ''creat_time'' = Inr PNone \<and>
       dict_getitem stored ''data'' = Inr PNone \<and>
       dict_getitem stored ''usrname'' = Inr PNone) \<and>
   (let stored = last (received_transactions
        (snd (receive_user_transaction ''abc123'' sample_env bob (Some ''abc123'') startup)))
    in dict_getitem stored ''authorizer_usrnbr'' = Inr (PInt 0) \<and>
       dict_getitem stored ''creat_usrnbr'' = Inr PNone \<and>
       dict_getitem stored ''creat_time'' = Inr (PStr ''2024-10-26'') \<and>
       dict_getitem stored ''data'' = Inr (PStr []) \<and>
       dict_getitem stored ''usrname'' = Inr (PStr ''bob''))"
proof -
  have h1: "''abc123'' \<noteq> []" by simp
  have h2: "append_raises sample_env 0 = None" by (simp add: sample_env_def)
  from absent_fields_stay_absent [OF h1 h2, of nobody startup]
    absent_fields_stay_absent [OF h1 h2, of bob startup] h2
  show ?thesis
    by (simp add: Let_def nobody_def bob_def)
qed

text \<open>
  C10, as the code has it. In an authenticated batch submission none of whose appends
  raises, the record at position \<open>i\<close> of the batch holds the clock reading made in its own
  turn of the loop, the \<open>i + 1\<close>-th after the reading that made the batch identifier, and
  all records hold that one identifier; so the timestamps of a batch may differ. They are
  in non-decreasing order when the readings of the clock during the request are: the
  clock is the local wall clock, which can be set back.
\<close>

theorem batch_received_at_per_record:
  assumes "WEBHOOK_TOKEN \<noteq> []" and "\<forall>i<length transactions. append_raises e i = None"
  shows "let store = received_transactions
               (snd (receive_batch_transactions WEBHOOK_TOKEN e transactions
                       (Some WEBHOOK_TOKEN) w));
             n = length (received_transactions w)
         in (\<forall>i<length transactions.
               dict_getitem (store ! (n + i)) ''received_at'' =
                 Inr (PStr (isoformat (now e (Suc i)))) \<and>
               dict_getitem (store ! (n + i)) ''batch_id'' =
                 Inr (PStr (strftime (now e 0) ''%Y%m%d_%H%M%S''))) \<and>
            ((\<forall>i\<le>length transactions. valid_datetime (now e i)) \<and>
             (\<forall>i j. i \<le> j \<and> j \<le> length transactions \<longrightarrow> dt_le (now e i) (now e j)) \<longrightarrow>
             (\<forall>i j. i \<le> j \<and> j < length transactions \<longrightarrow>
                (\<exists>s t. dict_getitem (store ! (n + i)) ''received_at'' = Inr (PStr s) \<and>
                       dict_getitem (store ! (n + j)) ''received_at'' = Inr (PStr t) \<and>
                       str_le s t)))"
proof -
  let ?r = "receive_batch_transactions WEBHOOK_TOKEN e transactions (Some WEBHOOK_TOKEN) w"
  define store where "store = received_transactions (snd ?r)"
  define n where "n = length (received_transactions w)"
  note st = receive_batch_transactions_all(1) [OF assms, of w]
  have rec: "dict_getitem (store ! (n + i)) ''received_at'' = Inr (PStr (isoformat (now e (Suc i)))) \<and>
             dict_getitem (store ! (n + i)) ''batch_id'' =
               Inr (PStr (strftime (now e 0) ''%Y%m%d_%H%M%S''))"
    if "i < length transactions" for i
    using that unfolding store_def n_def st
    by (simp add: nth_append dict_getitem_def new_batch_record del: map_of_append)
  have ord: "\<exists>s t. dict_getitem (store ! (n + i)) ''received_at'' = Inr (PStr s) \<and>
                   dict_getitem (store ! (n + j)) ''received_at'' = Inr (PStr t) \<and> str_le s t"
    if v: "\<forall>i\<le>length transactions. valid_datetime (now e i)"
      and m: "\<forall>i j. i \<le> j \<and> j \<le> length transactions \<longrightarrow> dt_le (now e i) (now e j)"
      and ij: "i \<le> j" "j < length transactions" for i j
  proof -
    have "str_le (isoformat (now e (Suc i))) (isoformat (now e (Suc j)))"
      using v m ij by (intro isoformat_mono) auto
    moreover have "i < length transactions" using ij by simp
    ultimately show ?thesis using rec ij(2) by blast
  qed
  show ?thesis
    unfolding Let_def store_def [symmetric] n_def [symmetric]
    using rec ord by blast
qed

theorem batch_received_at_per_record_witness:
  "''abc123'' \<noteq> [] \<and>
   append_raises sample_env 0 = None \<and> append_raises sample_env 1 = None \<and>
   valid_datetime (now sample_env 0) \<and> valid_datetime (now sample_env 1) \<and>
   valid_datetime (now sample_env 2) \<and>
   dt_le (now sample_env 0) (now sample_env 1) \<and> dt_le (now sample_env 1) (now sample_env 2) \<and>
   dict_getitem (received_transactions
      (snd (receive_batch_transactions ''abc123'' sample_env [alice, bob] (Some ''abc123'') startup)) ! 0)
     ''received_at'' = Inr (PStr ''2024-10-27T01:59:59.000001'') \<and>
   dict_getitem (received_transactions
      (snd (receive_batch_transactions ''abc123'' sample_env [alice, bob] (Some ''abc123'') startup)) ! 1)
     ''received_at'' = Inr (PStr ''2024-10-27T01:59:59.000002'') \<and>
   dict_getitem (received_transactions
      (snd (receive_batch_transactions ''abc123'' sample_env [alice, bob] (Some ''abc123'') startup)) ! 0)
     ''batch_id'' =
   dict_getitem (received_transactions
      (snd (receive_batch_transactions ''abc123'' sample_env [alice, bob] (Some ''abc123'') startup)) ! 1)
     ''batch_id'' \<and>
   str_le ''2024-10-27T01:59:59.000001'' ''2024-10-27T01:59:59.000002''"
proof -
  let ?store = "received_transactions
      (snd (receive_batch_transactions ''abc123'' sample_env [alice, bob] (Some ''abc123'') startup))"
  have h1: "''abc123'' \<noteq> []" by simp
  have h2: "\<forall>i<length [alice, bob]. append_raises sample_env i = None"
    by (simp add: sample_env_def)
  have h3: "\<forall>i\<le>length [alice, bob]. valid_datetime (now sample_env i)"
    by (simp add: sample_env_def sample_time_def valid_datetime_def)
  have h4: "\<forall>i j. i \<le> j \<and> j \<le> length [alice, bob] \<longrightarrow>
              dt_le (now sample_env i) (now sample_env j)"
    by (simp add: sample_env_def sample_time_def dt_le_def)
  from batch_received_at_per_record [OF h1 h2, of startup]
  have all: "\<forall>i<length [alice, bob].
      dict_getitem (?store ! (length (received_transactions startup) + i)) ''received_at'' =
        Inr (PStr (isoformat (now sample_env (Suc i)))) \<and>
      dict_getitem (?store ! (length (received_transactions startup) + i)) ''batch_id'' =
        Inr (PStr (strftime (now sample_env 0) ''%Y%m%d_%H%M%S''))"
    and ord: "(\<forall>i\<le>length [alice, bob]. valid_datetime (now sample_env i)) \<and>
       (\<forall>i j. i \<le> j \<and> j \<le> length [alice, bob] \<longrightarrow> dt_le (now sample_env i) (now sample_env j)) \<longrightarrow>
       (\<forall>i j. i \<le> j \<and> j < length [alice, bob] \<longrightarrow>
          (\<exists>s t. dict_getitem (?store ! (length (received_transactions startup) + i)) ''received_at'' =
                   Inr (PStr s) \<and>
                 dict_getitem (?store ! (length (received_transactions startup) + j)) ''received_at'' =
                   Inr (PStr t) \<and>
                 str_le s t))"
    unfolding Let_def by blast+
  have z: "length (received_transactions startup) = 0" by (simp add: startup_def)
  from all have b: "dict_getitem (?store ! 0) ''batch_id'' = dict_getitem (?store ! 1) ''batch_id''"
    unfolding z by simp
  from ord h3 h4 have "\<exists>s t. dict_getitem (?store ! (0 + 0)) ''received_at'' = Inr (PStr s) \<and>
      dict_getitem (?store ! (0 + 1)) ''received_at'' = Inr (PStr t) \<and> str_le s t"
    unfolding z by simp
  then have le: "str_le ''2024-10-27T01:59:59.000001'' ''2024-10-27T01:59:59.000002''"
    using sample_batch_received_at by simp
  have h5: "append_raises sample_env 0 = None \<and> append_raises sample_env 1 = None"
    by (simp add: sample_env_def)
  have h6: "valid_datetime (now sample_env 0) \<and> valid_datetime (now sample_env 1) \<and>
      valid_datetime (now sample_env 2)"
    using h3 by simp
  have h7: "dt_le (now sample_env 0) (now sample_env 1) \<and>
      dt_le (now sample_env 1) (now sample_env 2)"
    using h4 by simp
  from h1 h5 h6 h7 sample_batch_received_at b le show ?thesis by blast
qed

text \<open>
  Against C10 as it is written: on the night the local clock is set back from 01:59:59
  to 01:00:00 between two turns of the loop, the second record of the batch holds an
  earlier timestamp than the first.
\<close>

theorem received_at_can_decrease:
  "dict_getitem (received_transactions
      (snd (receive_batch_transactions ''abc123'' set_back_env [alice, bob]
              (Some ''abc123'') startup)) ! 0)
     ''received_at'' = Inr (PStr ''2024-10-27T01:59:59'') \<and>
   dict_getitem (received_transactions
      (snd (receive_batch_transactions ''abc123'' set_back_env [alice, bob]
              (Some ''abc123'') startup)) ! 1)
     ''received_at'' = Inr (PStr ''2024-10-27T01:00:00'') \<and>
   \<not> str_le ''2024-10-27T01:59:59'' ''2024-10-27T01:00:00''"
  by code_simp

end
